theory Spec2Isabelle
  imports Complex_Main
begin

section \<open>Numbers and rubric keys\<close>

text \<open>
  The rubric of \<^verbatim>\<open>src/src/components/VendorEvaluation.tsx.new\<close> has 18 score
  fields (interface \<^verbatim>\<open>Evaluation\<close>, lines 25-63). Each is one constructor here, in the
  order of the interface.
\<close>

datatype criterion =
    experienceScore | caseStudiesScore | domainExperienceScore
  | approachAlignmentScore | understandingChallengesScore | solutionTailoringScore
  | strategyAlignmentScore | methodologyScore | innovativeStrategiesScore
  | stakeholderEngagementScore | toolsFrameworkScore
  | costStructureScore | costEffectivenessScore | roiScore
  | referencesScore | testimonialsScore | sustainabilityScore
  | deliverablesScore

definition criteria :: "criterion list" where
  "criteria =
     [experienceScore, caseStudiesScore, domainExperienceScore,
      approachAlignmentScore, understandingChallengesScore, solutionTailoringScore,
      strategyAlignmentScore, methodologyScore, innovativeStrategiesScore,
      stakeholderEngagementScore, toolsFrameworkScore,
      costStructureScore, costEffectivenessScore, roiScore,
      referencesScore, testimonialsScore, sustainabilityScore,
      deliverablesScore]"

text \<open>
  A JavaScript number is an IEEE binary64 value. A finite one is modelled by the rational
  it denotes, and \<open>None\<close> stands for a value that is not finite (\<open>NaN\<close> or an
  infinity); negative zero is not told apart from zero. A score object is a partial map
  from the keys to numbers: the aggregator takes \<^verbatim>\<open>scores: any\<close>, and reading a field
  the object does not have gives \<^verbatim>\<open>undefined\<close>, which arithmetic turns into \<open>NaN\<close>.
\<close>

type_synonym number = "rat option"

type_synonym scores = "criterion \<Rightarrow> rat option"

text \<open>
  Rounding to binary64. \<open>binade x\<close> is the power of two at or below a positive \<open>x\<close>,
  found by halving or doubling at most as often as the format has exponents: it stops at
  \<open>2 ^ 1024\<close> above and at \<open>2 ^ - 1022\<close>, the smallest normal number, below, so that the
  subnormal numbers share the spacing of the lowest binade. The spacing of the doubles
  around \<open>x\<close> is the binade divided by \<open>2 ^ 52\<close>; \<open>x\<close> is rounded to the nearest
  multiple of it, a tie going to the even multiple, and a result of magnitude \<open>2 ^ 1024\<close>
  or more is an infinity.
\<close>

fun pow2_up :: "nat \<Rightarrow> rat \<Rightarrow> rat" where
  "pow2_up 0 x = 1"
| "pow2_up (Suc n) x = (if 2 \<le> x then 2 * pow2_up n (x / 2) else 1)"

fun pow2_down :: "nat \<Rightarrow> rat \<Rightarrow> rat" where
  "pow2_down 0 x = 1"
| "pow2_down (Suc n) x = (if x < 1 then pow2_down n (2 * x) / 2 else 1)"

definition binade :: "rat \<Rightarrow> rat" where
  "binade x = (if 1 \<le> x then pow2_up 1024 x else pow2_down 1022 x)"

definition nearest :: "int \<Rightarrow> rat \<Rightarrow> int" where
  "nearest f q =
     (if q - of_int f < 1 / 2 then f
      else if 1 / 2 < q - of_int f then f + 1
      else if even f then f else f + 1)"

definition round_half_even :: "rat \<Rightarrow> int" where
  "round_half_even q = nearest (floor q) q"

definition in_range :: "rat \<Rightarrow> number" where
  "in_range r = (if 2 ^ 1024 \<le> \<bar>r\<bar> then None else Some r)"

definition round_at :: "rat \<Rightarrow> rat \<Rightarrow> number" where
  "round_at u x = in_range (of_int (round_half_even (x / u)) * u)"

definition to_double :: "rat \<Rightarrow> number" where
  "to_double x = (if x = 0 then Some 0 else round_at (binade \<bar>x\<bar> / 2 ^ 52) x)"

text \<open>
  The arithmetic of the aggregator: each operation rounds its exact result, and an
  operand that is not finite gives a result that is not finite (the aggregator only adds,
  multiplies and divides by 10). A decimal literal of the source denotes the double
  nearest to it. The values of a score object are meant to be doubles; the definitions
  do not depend on it.
\<close>

definition nadd :: "number \<Rightarrow> number \<Rightarrow> number" where
  "nadd a b = (case a of None \<Rightarrow> None
               | Some x \<Rightarrow> (case b of None \<Rightarrow> None | Some y \<Rightarrow> to_double (x + y)))"

definition nmul :: "number \<Rightarrow> number \<Rightarrow> number" where
  "nmul a b = (case a of None \<Rightarrow> None
               | Some x \<Rightarrow> (case b of None \<Rightarrow> None | Some y \<Rightarrow> to_double (x * y)))"

definition ndiv10 :: "number \<Rightarrow> number" where
  "ndiv10 a = (case a of None \<Rightarrow> None | Some x \<Rightarrow> to_double (x / 10))"

text \<open>One summand of the source, \<^verbatim>\<open>(scores.field / 10 * w)\<close>.\<close>

definition item :: "scores \<Rightarrow> criterion \<Rightarrow> rat \<Rightarrow> number" where
  "item s c w = nmul (ndiv10 (s c)) (to_double w)"

section \<open>The score aggregator\<close>

text \<open>
  \<^verbatim>\<open>calculateWeightedScore\<close>, lines 86-128: six category sub-scores, each the sum of
  its summands times 100, then their sum, in the order of the source.
\<close>

definition experienceWeight :: "scores \<Rightarrow> number" where
  "experienceWeight s =
     nmul (nadd (nadd (item s experienceScore 0.10)
                      (item s caseStudiesScore 0.10))
                (item s domainExperienceScore 0.05))
          (Some 100)"

definition understandingWeight :: "scores \<Rightarrow> number" where
  "understandingWeight s =
     nmul (nadd (nadd (item s approachAlignmentScore 0.07)
                      (item s understandingChallengesScore 0.07))
                (item s solutionTailoringScore 0.06))
          (Some 100)"

definition methodologyWeight :: "scores \<Rightarrow> number" where
  "methodologyWeight s =
     nmul (nadd (nadd (nadd (nadd (item s strategyAlignmentScore 0.07)
                                  (item s methodologyScore 0.06))
                            (item s innovativeStrategiesScore 0.05))
                      (item s stakeholderEngagementScore 0.05))
                (item s toolsFrameworkScore 0.03))
          (Some 100)"

definition costWeight :: "scores \<Rightarrow> number" where
  "costWeight s =
     nmul (nadd (nadd (item s costStructureScore 0.06)
                      (item s costEffectivenessScore 0.05))
                (item s roiScore 0.03))
          (Some 100)"

definition referencesWeight :: "scores \<Rightarrow> number" where
  "referencesWeight s =
     nmul (nadd (nadd (item s referencesScore 0.06)
                      (item s testimonialsScore 0.02))
                (item s sustainabilityScore 0.02))
          (Some 100)"

definition deliverablesWeight :: "scores \<Rightarrow> number" where
  "deliverablesWeight s = nmul (item s deliverablesScore 0.05) (Some 100)"

definition calculateWeightedScore :: "scores \<Rightarrow> number" where
  "calculateWeightedScore s =
     nadd (nadd (nadd (nadd (nadd (experienceWeight s) (understandingWeight s))
                            (methodologyWeight s))
                      (costWeight s))
                (referencesWeight s))
          (deliverablesWeight s)"

text \<open>
  The weight table: the fraction each field is multiplied by in lines 89-125, and the
  category the source's comments put it in.
\<close>

fun weight :: "criterion \<Rightarrow> rat" where
  "weight experienceScore = 0.10"
| "weight caseStudiesScore = 0.10"
| "weight domainExperienceScore = 0.05"
| "weight approachAlignmentScore = 0.07"
| "weight understandingChallengesScore = 0.07"
| "weight solutionTailoringScore = 0.06"
| "weight strategyAlignmentScore = 0.07"
| "weight methodologyScore = 0.06"
| "weight innovativeStrategiesScore = 0.05"
| "weight stakeholderEngagementScore = 0.05"
| "weight toolsFrameworkScore = 0.03"
| "weight costStructureScore = 0.06"
| "weight costEffectivenessScore = 0.05"
| "weight roiScore = 0.03"
| "weight referencesScore = 0.06"
| "weight testimonialsScore = 0.02"
| "weight sustainabilityScore = 0.02"
| "weight deliverablesScore = 0.05"

datatype category =
  Experience | Objectives | Methodology | Cost | References | Deliverables

fun category_of :: "criterion \<Rightarrow> category" where
  "category_of experienceScore = Experience"
| "category_of caseStudiesScore = Experience"
| "category_of domainExperienceScore = Experience"
| "category_of approachAlignmentScore = Objectives"
| "category_of understandingChallengesScore = Objectives"
| "category_of solutionTailoringScore = Objectives"
| "category_of strategyAlignmentScore = Methodology"
| "category_of methodologyScore = Methodology"
| "category_of innovativeStrategiesScore = Methodology"
| "category_of stakeholderEngagementScore = Methodology"
| "category_of toolsFrameworkScore = Methodology"
| "category_of costStructureScore = Cost"
| "category_of costEffectivenessScore = Cost"
| "category_of roiScore = Cost"
| "category_of referencesScore = References"
| "category_of testimonialsScore = References"
| "category_of sustainabilityScore = References"
| "category_of deliverablesScore = Deliverables"

definition category_weight :: "category \<Rightarrow> rat" where
  "category_weight g = sum_list (map weight (filter (\<lambda>c. category_of c = g) criteria))"

text \<open>
  The reference formula of the specification, in exact arithmetic: the sum over the 18
  criteria of (value / 10) * weight * 100. It reads a missing value as \<open>0\<close>; it is only
  compared with the aggregator on objects that have every key.
\<close>

definition contribution :: "scores \<Rightarrow> criterion \<Rightarrow> rat" where
  "contribution s c = (case s c of None \<Rightarrow> 0 | Some v \<Rightarrow> (v / 10) * weight c * 100)"

definition reference_score :: "scores \<Rightarrow> rat" where
  "reference_score s = sum_list (map (contribution s) criteria)"

text \<open>
  A score outside the rubric's range, or missing; the validation of the submission
  endpoint below is stated with it.
\<close>

definition invalid_score :: "scores \<Rightarrow> criterion \<Rightarrow> bool" where
  "invalid_score s c = (case s c of None \<Rightarrow> True | Some v \<Rightarrow> v < 0 \<or> 10 < v)"

text \<open>Every value of a score object multiplied by a factor, as JavaScript computes \<^verbatim>\<open>k * v\<close>.\<close>

definition scale :: "rat \<Rightarrow> scores \<Rightarrow> scores" where
  "scale k s = (\<lambda>c. nmul (Some k) (s c))"

text \<open>
  For the analysis of the rounding: \<open>approx e b x y\<close> says that the number \<open>x\<close> is finite
  and within \<open>e\<close> of the exact value \<open>y\<close>, whose magnitude is at most \<open>b\<close>;
  \<open>bounded_scores\<close> says that every key is present with a magnitude of at most 11.
\<close>

definition approx :: "rat \<Rightarrow> rat \<Rightarrow> number \<Rightarrow> rat \<Rightarrow> bool" where
  "approx e b x y \<longleftrightarrow> (\<exists>r. x = Some r \<and> \<bar>r - y\<bar> \<le> e) \<and> \<bar>y\<bar> \<le> b"

definition bounded_scores :: "scores \<Rightarrow> bool" where
  "bounded_scores s \<longleftrightarrow> (\<forall>c. \<exists>v. s c = Some v \<and> \<bar>v\<bar> \<le> 11)"

text \<open>
  Score objects for the examples: one criterion with a value and 0 elsewhere, the same
  value everywhere, and the golden example of the specification (8, 6 and 10 on the first
  three criteria, 5 on the rest). \<open>tenth\<close> is the double that the literal \<^verbatim>\<open>0.1\<close>
  denotes.
\<close>

definition one_hot :: "criterion \<Rightarrow> rat \<Rightarrow> scores" where
  "one_hot c v = (\<lambda>d. Some (if d = c then v else 0))"

definition all_scores :: "rat \<Rightarrow> scores" where
  "all_scores v = (\<lambda>c. Some v)"

definition golden :: scores where
  "golden = (\<lambda>c. Some (if c = experienceScore then 8
                          else if c = caseStudiesScore then 6
                          else if c = domainExperienceScore then 10
                          else 5))"

definition tenth :: rat where
  "tenth = 3602879701896397 / 36028797018963968"

section \<open>The evaluation form\<close>

text \<open>
  The form state \<^verbatim>\<open>newEvaluation\<close> starts as \<^verbatim>\<open>emptyEvaluation\<close> (lines 65-84): every
  score field present with value 0. The remark strings take no part in scoring and are
  left out of the model.
\<close>

definition emptyEvaluation :: scores where
  "emptyEvaluation = (\<lambda>c. Some 0)"

text \<open>
  The change handler of a score input (lines 238-243) stores
  \<^verbatim>\<open>parseFloat(e.target.value) || 0\<close> under the field. The argument \<open>parsed\<close> is what
  \<^verbatim>\<open>parseFloat\<close> returned for the text of the input: \<open>None\<close> when it is \<open>NaN\<close>. The
  attributes \<^verbatim>\<open>min="0" max="10"\<close> of the input element do not take part in the handler.
\<close>

definition onChange :: "scores \<Rightarrow> criterion \<Rightarrow> number \<Rightarrow> scores" where
  "onChange newEvaluation field parsed =
     newEvaluation(field \<mapsto> (case parsed of None \<Rightarrow> 0 | Some v \<Rightarrow> if v = 0 then 0 else v))"

text \<open>
  The body that \<^verbatim>\<open>handleSubmitEvaluation\<close> posts to \<^verbatim>\<open>/api/evaluations\<close> (lines 160-172):
  the score fields of the form, the domain, the overall score computed in the browser,
  and the two identifiers. An identifier or a domain that a request does not carry is
  \<open>None\<close>.
\<close>

record submission =
  sub_scores :: scores
  sub_domain :: "string option"
  sub_overallScore :: number
  sub_vendorId :: "int option"
  sub_evaluatorId :: "int option"

text \<open>The mock evaluator of lines 137-142 has id 1.\<close>

definition currentEvaluator_id :: int where
  "currentEvaluator_id = 1"

definition submitted_body :: "int \<Rightarrow> scores \<Rightarrow> submission" where
  "submitted_body vendorId newEvaluation =
     (let overallScore = calculateWeightedScore newEvaluation
      in \<lparr> sub_scores = newEvaluation,
           sub_domain = Some ''MEDIA'',
           sub_overallScore = overallScore,
           sub_vendorId = Some vendorId,
           sub_evaluatorId = Some currentEvaluator_id \<rparr>)"

text \<open>
  What \<^verbatim>\<open>fetch\<close> gives back: a thrown error with its message, or a response with its
  \<^verbatim>\<open>ok\<close> flag and the \<^verbatim>\<open>error\<close> field of its JSON body (\<open>None\<close> when absent or
  empty). The toast shows the overall score after success and a message after failure;
  the rounding to two decimals for display is not modelled.
\<close>

datatype fetch_result = Thrown string | Response bool "string option"

datatype toast = Submitted number | Failed string

definition handleSubmitEvaluation ::
  "(submission \<Rightarrow> fetch_result) \<Rightarrow> int \<Rightarrow> scores \<Rightarrow> toast \<times> scores" where
  "handleSubmitEvaluation fetch vendorId newEvaluation =
     (let overallScore = calculateWeightedScore newEvaluation
      in case fetch (submitted_body vendorId newEvaluation) of
           Thrown msg \<Rightarrow> (Failed msg, newEvaluation)
         | Response ok err \<Rightarrow>
             if \<not> ok
             then (Failed (case err of None \<Rightarrow> ''Failed to submit evaluation''
                                     | Some m \<Rightarrow> m), newEvaluation)
             else (Submitted overallScore, emptyEvaluation))"

section \<open>The evaluation submission endpoint\<close>

text \<open>
  A stored row of the model \<^verbatim>\<open>Evaluation\<close> of \<^verbatim>\<open>src/prisma/schema.prisma\<close>
  (lines 70-121): the identifiers, the domain, the 18 score columns (\<^verbatim>\<open>Float\<close>, not
  nullable), the overall score and the status. Remarks and timestamps are left out.
\<close>

record evaluation =
  eval_id :: int
  eval_vendorId :: int
  eval_evaluatorId :: int
  eval_domain :: string
  eval_scores :: "criterion \<Rightarrow> rat"
  eval_overallScore :: rat
  eval_status :: string

datatype submit_error = ValidationError string | AssertionFailed

text \<open>
  Modelled from the spec: the handler of \<^verbatim>\<open>POST /api/evaluations\<close> is not among the
  sources; only its caller \<^verbatim>\<open>handleSubmitEvaluation\<close> and the table it writes are. The
  specification (sections 3, 4.3, 6 and 7) says that the endpoint rejects a submission
  with a missing identifier, a missing criterion or a value outside [0,10] before the
  aggregator runs, recomputes the overall score from the criterion scores, ignores any
  overall score of the request, and stores one row.
\<close>

definition validateSubmission :: "submission \<Rightarrow> string option" where
  "validateSubmission r =
     (if sub_vendorId r = None \<or> sub_evaluatorId r = None \<or> sub_domain r = None
      then Some ''missing required identifier''
      else if list_ex (invalid_score (sub_scores r)) criteria
      then Some ''missing criterion or score outside 0-10''
      else None)"

definition submitEvaluation ::
  "submission \<Rightarrow> evaluation list \<Rightarrow> submit_error + evaluation \<times> evaluation list" where
  "submitEvaluation r db =
     (case validateSubmission r of
        Some msg \<Rightarrow> Inl (ValidationError msg)
      | None \<Rightarrow>
          (case calculateWeightedScore (sub_scores r) of
             None \<Rightarrow> Inl AssertionFailed
           | Some overall \<Rightarrow>
               (let row = \<lparr> eval_id = int (length db) + 1,
                            eval_vendorId = (case sub_vendorId r of Some v \<Rightarrow> v | None \<Rightarrow> 0),
                            eval_evaluatorId = (case sub_evaluatorId r of Some e \<Rightarrow> e | None \<Rightarrow> 0),
                            eval_domain = (case sub_domain r of Some d \<Rightarrow> d | None \<Rightarrow> []),
                            eval_scores = (\<lambda>c. case sub_scores r c of Some v \<Rightarrow> v | None \<Rightarrow> 0),
                            eval_overallScore = overall,
                            eval_status = ''COMPLETED'' \<rparr>
                in Inr (row, db @ [row]))))"

section \<open>Votes and the decision resolver\<close>

text \<open>
  A row of the model \<^verbatim>\<open>VendorVote\<close> of \<^verbatim>\<open>src/prisma/schema.prisma\<close> (lines 175-184).
  The column \<^verbatim>\<open>vote\<close> is a string documented as "ACCEPT" or "REJECT"; the two values are
  the constructors of \<open>vote_choice\<close>. The timestamp is left out.
\<close>

datatype vote_choice = ACCEPT | REJECT

record vendorVote =
  vote_id :: int
  vote_vendorId :: int
  vote_userId :: int
  vote :: vote_choice

datatype decision = ACCEPTED | REJECTED | PENDING

text \<open>
  The persisted state the voting logic works on: the vote table with the counter of its
  autoincrement key, and the column \<^verbatim>\<open>Vendor.finalDecision\<close> per vendor id (\<open>None\<close>
  for null).
\<close>

record vote_db =
  votes :: "vendorVote list"
  next_vote_id :: int
  finalDecision :: "int \<Rightarrow> decision option"

definition empty_vote_db :: vote_db where
  "empty_vote_db = \<lparr> votes = [], next_vote_id = 1, finalDecision = (\<lambda>_. None) \<rparr>"

definition vote_key :: "vendorVote \<Rightarrow> int \<times> int" where
  "vote_key r = (vote_vendorId r, vote_userId r)"

definition has_vote :: "int \<Rightarrow> int \<Rightarrow> vendorVote list \<Rightarrow> bool" where
  "has_vote v u rows = list_ex (\<lambda>r. vote_key r = (v, u)) rows"

text \<open>
  The operations of the table under \<^verbatim>\<open>@@unique([vendorId, userId])\<close>: an insert of a
  pair that has a row fails, an update by the pair rewrites the vote of its row, an
  upsert does the one or the other, a delete removes the row of the pair.
\<close>

datatype db_error = UniqueConstraintFailed

definition insertVote :: "int \<Rightarrow> int \<Rightarrow> vote_choice \<Rightarrow> vote_db \<Rightarrow> vote_db" where
  "insertVote v u b db =
     db\<lparr> votes := votes db @
            [\<lparr> vote_id = next_vote_id db, vote_vendorId = v, vote_userId = u, vote = b \<rparr>],
         next_vote_id := next_vote_id db + 1 \<rparr>"

definition createVote :: "int \<Rightarrow> int \<Rightarrow> vote_choice \<Rightarrow> vote_db \<Rightarrow> db_error + vote_db" where
  "createVote v u b db =
     (if has_vote v u (votes db) then Inl UniqueConstraintFailed
      else Inr (insertVote v u b db))"

definition updateVote :: "int \<Rightarrow> int \<Rightarrow> vote_choice \<Rightarrow> vote_db \<Rightarrow> vote_db" where
  "updateVote v u b db =
     db\<lparr> votes := map (\<lambda>r. if vote_key r = (v, u) then r\<lparr> vote := b \<rparr> else r) (votes db) \<rparr>"

definition upsertVote :: "int \<Rightarrow> int \<Rightarrow> vote_choice \<Rightarrow> vote_db \<Rightarrow> vote_db" where
  "upsertVote v u b db =
     (if has_vote v u (votes db) then updateVote v u b db else insertVote v u b db)"

definition deleteVote :: "int \<Rightarrow> int \<Rightarrow> vote_db \<Rightarrow> vote_db" where
  "deleteVote v u db = db\<lparr> votes := filter (\<lambda>r. vote_key r \<noteq> (v, u)) (votes db) \<rparr>"

text \<open>
  Modelled from the spec: \<^verbatim>\<open>resolveDecision\<close> is not among the sources; only the table
  of votes is. Section 4.2 of the specification: the votes are taken in order, a later
  vote of a user supersedes the earlier one of that user, the ACCEPT and the REJECT
  votes that remain are counted, and the larger count decides; equal counts give
  PENDING.
\<close>

fun supersede :: "int \<Rightarrow> vote_choice \<Rightarrow> (int \<times> vote_choice) list \<Rightarrow> (int \<times> vote_choice) list" where
  "supersede u b [] = [(u, b)]"
| "supersede u b ((u', b') # rest) =
     (if u' = u then (u, b) # rest else (u', b') # supersede u b rest)"

fun tally :: "vendorVote list \<Rightarrow> (int \<times> vote_choice) list \<Rightarrow> (int \<times> vote_choice) list" where
  "tally [] current = current"
| "tally (v # vs) current = tally vs (supersede (vote_userId v) (vote v) current)"

definition count_choice :: "vote_choice \<Rightarrow> (int \<times> vote_choice) list \<Rightarrow> nat" where
  "count_choice b current = length (filter (\<lambda>p. snd p = b) current)"

definition resolveDecision :: "vendorVote list \<Rightarrow> decision" where
  "resolveDecision vs =
     (let current = tally vs [];
          accepts = count_choice ACCEPT current;
          rejects = count_choice REJECT current
      in if accepts > rejects then ACCEPTED
         else if rejects > accepts then REJECTED
         else PENDING)"

text \<open>
  The most recent vote of a voter in a sequence of votes, stated on the sequence itself:
  the vote of the last element that carries the voter's id.
\<close>

definition most_recent :: "vendorVote list \<Rightarrow> int \<Rightarrow> vote_choice option" where
  "most_recent vs u =
     (case rev (filter (\<lambda>v. vote_userId v = u) vs) of
        [] \<Rightarrow> None
      | v # _ \<Rightarrow> Some (vote v))"

definition voters_for :: "vote_choice \<Rightarrow> vendorVote list \<Rightarrow> int set" where
  "voters_for b vs = {u. most_recent vs u = Some b}"

text \<open>
  Modelled from the spec: the voting endpoint is not among the sources. Section 6 of
  the specification: it upserts the vote keyed on the pair of vendor and user, resolves
  the decision over the votes of that vendor, and writes it to the vendor; a PENDING
  outcome leaves the stored decision as it was (section 4.2).
\<close>

definition castVote :: "int \<Rightarrow> int \<Rightarrow> vote_choice \<Rightarrow> vote_db \<Rightarrow> vote_db" where
  "castVote v u b db =
     (let db' = upsertVote v u b db;
          d = resolveDecision (filter (\<lambda>r. vote_vendorId r = v) (votes db'))
      in if d = PENDING then db'
         else db'\<lparr> finalDecision := (finalDecision db')(v := Some d) \<rparr>)"

text \<open>The states of the vote table that the operations reach from the empty table.\<close>

inductive reachable :: "vote_db \<Rightarrow> bool" where
  init: "reachable empty_vote_db"
| create: "reachable db \<Longrightarrow> createVote v u b db = Inr db' \<Longrightarrow> reachable db'"
| update: "reachable db \<Longrightarrow> reachable (updateVote v u b db)"
| upsert: "reachable db \<Longrightarrow> reachable (upsertVote v u b db)"
| delete: "reachable db \<Longrightarrow> reachable (deleteVote v u db)"
| cast: "reachable db \<Longrightarrow> reachable (castVote v u b db)"

text \<open>A vote with a given voter and choice, for the examples of the specification.\<close>

definition a_vote :: "int \<Rightarrow> vote_choice \<Rightarrow> vendorVote" where
  "a_vote u b = \<lparr> vote_id = 0, vote_vendorId = 1, vote_userId = u, vote = b \<rparr>"

section \<open>The deployment-error handler\<close>

text \<open>
  \<^verbatim>\<open>src/src/pages/api/deployment/errors.ts\<close>. The parsed body of a request is a JSON
  value; a property of it is a JSON value, or absent (\<open>None\<close>, JavaScript's
  \<^verbatim>\<open>undefined\<close>); \<open>truthy\<close> is JavaScript's conversion to a boolean, which the test
  \<^verbatim>\<open>!errorMessage || !environment\<close> applies.
\<close>

datatype json =
    JNull
  | JBool bool
  | JNum "rat option"
  | JStr string
  | JArr "json list"
  | JObj "(string \<times> json) list"

fun truthy :: "json option \<Rightarrow> bool" where
  "truthy None = False"
| "truthy (Some JNull) = False"
| "truthy (Some (JBool b)) = b"
| "truthy (Some (JNum None)) = False"
| "truthy (Some (JNum (Some q))) = (q \<noteq> 0)"
| "truthy (Some (JStr t)) = (t \<noteq> [])"
| "truthy (Some (JArr xs)) = True"
| "truthy (Some (JObj kvs)) = True"


text \<open>
  Reading a property of a JSON value: an object gives the value of the key (the last one,
  when the text of the body repeated the key), every other value gives \<^verbatim>\<open>undefined\<close>.
\<close>

fun json_field :: "json \<Rightarrow> string \<Rightarrow> json option" where
  "json_field (JObj kvs) name = map_of (rev kvs) name"
| "json_field other name = None"

text \<open>
  The request: its method, its parsed body (\<open>None\<close> when \<^verbatim>\<open>req.body\<close> is
  \<^verbatim>\<open>undefined\<close>), and the three query parameters. A query number is what
  \<^verbatim>\<open>Number(...)\<close> makes of the parameter's text, \<open>None\<close> inside for \<open>NaN\<close>.
\<close>

record request =
  req_method :: string
  req_body :: "json option"
  query_resolved :: "string option"
  query_limit :: "number option"
  query_offset :: "number option"

text \<open>
  The destructuring of lines 35-42 throws a \<^verbatim>\<open>TypeError\<close> when the body is
  \<^verbatim>\<open>undefined\<close> or \<^verbatim>\<open>null\<close>; from every other value it reads the six names.
\<close>

definition destructurable :: "json option \<Rightarrow> bool" where
  "destructurable b = (case b of None \<Rightarrow> False | Some JNull \<Rightarrow> False | Some other \<Rightarrow> True)"

definition body_field :: "json option \<Rightarrow> string \<Rightarrow> json option" where
  "body_field b name = (case b of None \<Rightarrow> None | Some v \<Rightarrow> json_field v name)"

text \<open>The argument \<^verbatim>\<open>data\<close> of \<^verbatim>\<open>prisma.deploymentError.create\<close> (lines 51-58).\<close>

record create_data =
  data_errorMessage :: "json option"
  data_errorStack :: "json option"
  data_errorCode :: "json option"
  data_environment :: "json option"
  data_component :: "json option"
  data_metadata :: json

text \<open>
  The Prisma client is a library: its three calls are parameters of the model, over any
  type \<open>'db\<close> of database states and any type \<open>'row\<close> of stored records. A call that
  throws returns \<open>None\<close>. The two reads return no new state; \<open>create\<close> returns the
  stored row and the new state.
\<close>

record ('db, 'row) prisma_client =
  findMany :: "bool option \<Rightarrow> number \<Rightarrow> number \<Rightarrow> 'db \<Rightarrow> 'row list option"
  count_rows :: "bool option \<Rightarrow> 'db \<Rightarrow> nat option"
  create_row :: "create_data \<Rightarrow> 'db \<Rightarrow> ('row \<times> 'db) option"

datatype 'row response_body =
    ErrorBody string
  | Listing "'row list" nat number number
  | Created 'row

record 'row response =
  status :: nat
  body :: "'row response_body"

text \<open>
  The two derived fields of the listing, lines 28-29. A division by a zero limit gives
  \<open>NaN\<close> or an infinity in JavaScript; both are \<open>None\<close> here.
\<close>

definition page_of :: "number \<Rightarrow> number \<Rightarrow> number" where
  "page_of offset limit =
     (case offset of None \<Rightarrow> None
      | Some off \<Rightarrow> (case limit of None \<Rightarrow> None
          | Some l \<Rightarrow> if l = 0 then None else Some (of_int (floor (off / l)) + 1)))"

definition totalPages_of :: "nat \<Rightarrow> number \<Rightarrow> number" where
  "totalPages_of total_rows limit =
     (case limit of None \<Rightarrow> None
      | Some l \<Rightarrow> if l = 0 then None else Some (of_int (ceiling (of_nat total_rows / l))))"

text \<open>
  The handler. The method test comes first; the body is destructured only on the POST
  path, inside the \<^verbatim>\<open>try\<close> block, so that what it throws is answered with 500.
\<close>

definition handler ::
  "('db, 'row) prisma_client \<Rightarrow> request \<Rightarrow> 'db \<Rightarrow> 'row response \<times> 'db" where
  "handler prisma req db =
     (if req_method req \<noteq> ''POST'' \<and> req_method req \<noteq> ''GET''
      then (\<lparr> status = 405, body = ErrorBody ''Method not allowed'' \<rparr>, db)
      else if req_method req = ''GET''
      then
        (let limit = (case query_limit req of None \<Rightarrow> Some 10 | Some n \<Rightarrow> n);
             offset = (case query_offset req of None \<Rightarrow> Some 0 | Some n \<Rightarrow> n);
             wh = (case query_resolved req of None \<Rightarrow> None | Some t \<Rightarrow> Some (t = ''true''))
         in case findMany prisma wh limit offset db of
              None \<Rightarrow> (\<lparr> status = 500, body = ErrorBody ''Internal server error'' \<rparr>, db)
            | Some errors \<Rightarrow>
                (case count_rows prisma wh db of
                   None \<Rightarrow> (\<lparr> status = 500, body = ErrorBody ''Internal server error'' \<rparr>, db)
                 | Some total_rows \<Rightarrow>
                     (\<lparr> status = 200,
                        body = Listing errors total_rows (page_of offset limit)
                                 (totalPages_of total_rows limit) \<rparr>, db)))
      else if \<not> destructurable (req_body req)
      then (\<lparr> status = 500, body = ErrorBody ''Internal server error'' \<rparr>, db)
      else
        (let errorMessage = body_field (req_body req) ''errorMessage'';
             errorStack = body_field (req_body req) ''errorStack'';
             errorCode = body_field (req_body req) ''errorCode'';
             environment = body_field (req_body req) ''environment'';
             component = body_field (req_body req) ''component'';
             metadata = body_field (req_body req) ''metadata''
         in if \<not> truthy errorMessage \<or> \<not> truthy environment
            then (\<lparr> status = 400,
                    body = ErrorBody
                      ''Missing required fields: errorMessage and environment are required'' \<rparr>, db)
            else
              (case create_row prisma
                      \<lparr> data_errorMessage = errorMessage,
                        data_errorStack = errorStack,
                        data_errorCode = errorCode,
                        data_environment = environment,
                        data_component = component,
                        data_metadata = (case metadata of
                                           None \<Rightarrow> JObj []
                                         | Some m \<Rightarrow> if truthy (Some m) then m else JObj []) \<rparr> db of
                 None \<Rightarrow> (\<lparr> status = 500, body = ErrorBody ''Internal server error'' \<rparr>, db)
               | Some (row, db') \<Rightarrow> (\<lparr> status = 201, body = Created row \<rparr>, db'))))"

text \<open>
  A client for the examples: the database is the list of the stored data, every call
  succeeds, and the reads ignore their filter.
\<close>

definition list_client :: "(create_data list, create_data) prisma_client" where
  "list_client =
     \<lparr> findMany = (\<lambda>wh limit offset db. Some db),
       count_rows = (\<lambda>wh db. Some (length db)),
       create_row = (\<lambda>d db. Some (d, db @ [d])) \<rparr>"

definition a_request :: "string \<Rightarrow> json option \<Rightarrow> request" where
  "a_request m b =
     \<lparr> req_method = m, req_body = b, query_resolved = None, query_limit = None,
       query_offset = None \<rparr>"

section \<open>The database connection of the server\<close>

text \<open>
  \<^verbatim>\<open>src/server.js\<close>, lines 30-81. The module state is the client (present or null),
  the flag \<^verbatim>\<open>isConnected\<close> and the counter \<^verbatim>\<open>connectionRetries\<close>; the lines written
  to the console are kept as well, since one line is written per retry.
\<close>

datatype log_line =
    CreatingClient
  | TestingConnection
  | ConnectionSuccessful
  | ConnectionError
  | Retrying int

record conn_state =
  prisma_present :: bool
  isConnected :: bool
  connectionRetries :: int
  console :: "log_line list"

definition initial_conn :: conn_state where
  "initial_conn =
     \<lparr> prisma_present = False, isConnected = False, connectionRetries = 0, console = [] \<rparr>"

text \<open>
  What happens in one pass through the \<^verbatim>\<open>try\<close> block is not decided by the program:
  each of \<^verbatim>\<open>prisma.$disconnect()\<close>, \<^verbatim>\<open>createPrismaClient()\<close> and \<^verbatim>\<open>prisma.$connect()\<close>
  may throw. Every awaited promise is taken to settle, what is thrown is taken to be an
  \<^verbatim>\<open>Error\<close> object, and one call runs at a time.
\<close>

record attempt =
  disconnect_throws :: bool
  create_throws :: bool
  connect_throws :: bool

text \<open>Lines 49-62: the result is whether the block ran to its \<^verbatim>\<open>return true\<close>.\<close>

definition try_block :: "attempt \<Rightarrow> conn_state \<Rightarrow> bool \<times> conn_state" where
  "try_block a s =
     (if prisma_present s \<and> disconnect_throws a then (False, s)
      else
        (let s1 = s\<lparr> console := console s @ [CreatingClient] \<rparr>
         in if create_throws a then (False, s1)
            else
              (let s2 = s1\<lparr> prisma_present := True,
                             console := console s1 @ [TestingConnection] \<rparr>
               in if connect_throws a then (False, s2)
                  else (True, s2\<lparr> console := console s2 @ [ConnectionSuccessful],
                                  isConnected := True,
                                  connectionRetries := 0 \<rparr>))))"

text \<open>Lines 64-71: the start of the \<^verbatim>\<open>catch\<close> block.\<close>

definition catch_block :: "conn_state \<Rightarrow> conn_state" where
  "catch_block s =
     s\<lparr> console := console s @ [ConnectionError],
        isConnected := False,
        prisma_present := False \<rparr>"

text \<open>
  \<^verbatim>\<open>MAX_RETRIES\<close> is 5 or \<^verbatim>\<open>parseInt\<close> of an environment variable, which may be
  \<open>NaN\<close> (\<open>None\<close>); a comparison with \<open>NaN\<close> is false. A digit string beyond the
  range of doubles would make it an infinity; that setting is outside this model.
\<close>

definition below_max :: "int \<Rightarrow> int option \<Rightarrow> bool" where
  "below_max n MAX_RETRIES = (case MAX_RETRIES of None \<Rightarrow> False | Some m \<Rightarrow> n < m)"

definition retry_step :: "conn_state \<Rightarrow> conn_state" where
  "retry_step s =
     (let s1 = s\<lparr> connectionRetries := connectionRetries s + 1 \<rparr>
      in s1\<lparr> console := console s1 @ [Retrying (connectionRetries s1)] \<rparr>)"

definition retries_left :: "int option \<Rightarrow> conn_state \<Rightarrow> nat" where
  "retries_left MAX_RETRIES s =
     (case MAX_RETRIES of None \<Rightarrow> 0 | Some m \<Rightarrow> nat (m - connectionRetries s))"

text \<open>
  \<^verbatim>\<open>connectDB\<close>: \<open>attempts k\<close> is what happens in the \<open>k\<close>-th pass through the
  \<^verbatim>\<open>try\<close> block, and \<open>n\<close> counts the passes made so far.
\<close>

function connectDB ::
  "int option \<Rightarrow> (nat \<Rightarrow> attempt) \<Rightarrow> nat \<Rightarrow> conn_state \<Rightarrow> bool \<times> conn_state" where
  "connectDB MAX_RETRIES attempts n s =
     (if isConnected s then (True, s)
      else if fst (try_block (attempts n) s) then (True, snd (try_block (attempts n) s))
      else if below_max (connectionRetries (catch_block (snd (try_block (attempts n) s))))
                MAX_RETRIES
      then connectDB MAX_RETRIES attempts (Suc n)
             (retry_step (catch_block (snd (try_block (attempts n) s))))
      else (False, catch_block (snd (try_block (attempts n) s))))"
  by pat_completeness auto
termination
proof (relation "measure (\<lambda>(m, attempts, n, s). retries_left m s)")
  show "wf (measure (\<lambda>(m, attempts, n, s). retries_left m s))"
    by simp
next
  fix MAX_RETRIES :: "int option" and attempts :: "nat \<Rightarrow> attempt" and n :: nat
    and s :: conn_state
  assume failed: "\<not> fst (try_block (attempts n) s)"
    and below: "below_max (connectionRetries (catch_block (snd (try_block (attempts n) s))))
                  MAX_RETRIES"
  have kept: "connectionRetries (catch_block (snd (try_block (attempts n) s))) =
              connectionRetries s"
    using failed by (simp add: try_block_def catch_block_def Let_def split: if_splits)
  show "((MAX_RETRIES, attempts, Suc n,
          retry_step (catch_block (snd (try_block (attempts n) s)))),
         (MAX_RETRIES, attempts, n, s))
        \<in> measure (\<lambda>(m, attempts, n, s). retries_left m s)"
    using below kept
    by (auto simp: retries_left_def below_max_def retry_step_def Let_def split: option.splits)
qed

declare connectDB.simps [simp del]

text \<open>
  The retry numbers announced on the console, in order: one line
  \<^verbatim>\<open>Retrying connection (k/MAX_RETRIES)\<close> is written per recursive call.
\<close>

fun retry_numbers :: "log_line list \<Rightarrow> int list" where
  "retry_numbers [] = []"
| "retry_numbers (Retrying k # ls) = k # retry_numbers ls"
| "retry_numbers (l # ls) = retry_numbers ls"

text \<open>
  What a call of \<^verbatim>\<open>connectDB\<close> from state \<open>s\<close> with result \<open>res\<close> has done when it
  made \<open>j\<close> recursive calls; the induction over the recursion is stated with it.
\<close>

definition connect_post ::
  "int option \<Rightarrow> (nat \<Rightarrow> attempt) \<Rightarrow> nat \<Rightarrow> conn_state \<Rightarrow> bool \<times> conn_state \<Rightarrow> int \<Rightarrow> bool" where
  "connect_post m attempts n s res j \<longleftrightarrow>
     0 \<le> j \<and> j \<le> int (retries_left m s) \<and>
     retry_numbers (console (snd res)) =
       retry_numbers (console s) @ [connectionRetries s + 1 .. connectionRetries s + j] \<and>
     (if fst res
      then isConnected (snd res) \<and>
           (isConnected s \<or>
            (\<exists>k \<le> nat j. \<not> create_throws (attempts (n + k)) \<and> \<not> connect_throws (attempts (n + k))))
      else \<not> isConnected (snd res) \<and>
           connectionRetries (snd res) = connectionRetries s + j \<and>
           \<not> below_max (connectionRetries (snd res)) m)"

definition always_failing :: attempt where
  "always_failing = \<lparr> disconnect_throws = False, create_throws = False, connect_throws = True \<rparr>"

definition succeeding :: attempt where
  "succeeding = \<lparr> disconnect_throws = False, create_throws = False, connect_throws = False \<rparr>"

section \<open>Properties of the aggregator\<close>

subsection \<open>Evaluating the rounding\<close>

lemma pow2_up_numeral:
  "pow2_up (numeral k) x = (if 2 \<le> x then 2 * pow2_up (pred_numeral k) (x / 2) else 1)"
  by (simp add: numeral_eq_Suc)

lemma pow2_down_numeral:
  "pow2_down (numeral k) x = (if x < 1 then pow2_down (pred_numeral k) (2 * x) / 2 else 1)"
  by (simp add: numeral_eq_Suc)

lemma floor_rat_numeral: "\<lfloor>(numeral a :: rat) / numeral b\<rfloor> = numeral a div numeral b"
  using floor_divide_of_int_eq [of "numeral a" "numeral b", where ?'a = rat] by simp

lemmas double_eval = to_double_def round_at_def in_range_def round_half_even_def nearest_def
  binade_def pow2_up_numeral pow2_down_numeral floor_rat_numeral

lemmas aggregator_defs =
  calculateWeightedScore_def experienceWeight_def understandingWeight_def
  methodologyWeight_def costWeight_def referencesWeight_def deliverablesWeight_def
  item_def nadd_def nmul_def ndiv10_def


lemma all_ten_score: "calculateWeightedScore (all_scores 10) = Some 100"
  by (simp add: aggregator_defs double_eval all_scores_def)

lemma all_zero_score: "calculateWeightedScore (all_scores 0) = Some 0"
  by (simp add: aggregator_defs double_eval all_scores_def)

lemma all_one_score: "calculateWeightedScore (all_scores 1) = Some (10 + 1 / 2 ^ 49)"
  by (simp add: aggregator_defs double_eval all_scores_def)

lemma one_hot_seven_score:
  "calculateWeightedScore (one_hot approachAlignmentScore 10) = Some (7 + 1 / 2 ^ 50)"
  by (simp add: aggregator_defs double_eval one_hot_def)

lemma one_hot_fifteen_score:
  "calculateWeightedScore (one_hot experienceScore 15) = Some (15 + 1 / 2 ^ 49)"
  by (simp add: aggregator_defs double_eval one_hot_def)

lemma golden_score: "calculateWeightedScore golden = Some (113 / 2)"
  by (simp add: aggregator_defs double_eval golden_def)

subsection \<open>The error of one rounding, and of the aggregator\<close>

lemma pow2_up_pos: "0 < pow2_up n x"
  by (induction n arbitrary: x) simp_all

lemma pow2_up_le: "1 \<le> x \<Longrightarrow> pow2_up n x \<le> x"
proof (induction n arbitrary: x)
  case 0
  then show ?case by simp
next
  case (Suc n)
  show ?case
  proof (cases "2 \<le> x")
    case True
    then have "pow2_up n (x / 2) \<le> x / 2"
      by (intro Suc.IH) simp
    with True show ?thesis by simp
  next
    case False
    with Suc.prems show ?thesis by simp
  qed
qed

lemma pow2_down_pos: "0 < pow2_down n x"
  by (induction n arbitrary: x) simp_all

lemma pow2_down_le: "pow2_down n x \<le> 1"
proof (induction n arbitrary: x)
  case 0
  then show ?case by simp
next
  case (Suc n)
  have "pow2_down n (2 * x) \<le> 1"
    by (rule Suc.IH)
  then show ?case by simp
qed

lemma binade_bounds:
  assumes "x \<le> 128"
  shows "0 < binade x" and "binade x \<le> 128"
proof -
  show "0 < binade x"
    by (simp add: binade_def pow2_up_pos pow2_down_pos)
  show "binade x \<le> 128"
  proof (cases "1 \<le> x")
    case True
    then have "pow2_up 1024 x \<le> x" by (rule pow2_up_le)
    with True assms show ?thesis by (simp add: binade_def)
  next
    case False
    have "pow2_down 1022 x \<le> 1" by (rule pow2_down_le)
    with False show ?thesis by (simp add: binade_def)
  qed
qed

lemma round_half_even_error: "\<bar>of_int (round_half_even q) - q\<bar> \<le> 1 / 2"
proof -
  have "of_int \<lfloor>q\<rfloor> \<le> q" and "q < of_int \<lfloor>q\<rfloor> + 1"
    by linarith+
  then show ?thesis
    by (auto simp: round_half_even_def nearest_def)
qed

lemma to_double_error:
  assumes "\<bar>x\<bar> \<le> 128"
  shows "\<exists>r. to_double x = Some r \<and> \<bar>r - x\<bar> \<le> 1 / 2 ^ 46"
proof (cases "x = 0")
  case True
  then show ?thesis by (simp add: to_double_def)
next
  case False
  define u where "u = binade \<bar>x\<bar> / 2 ^ 52"
  define r where "r = of_int (round_half_even (x / u)) * u"
  have u_pos: "0 < u" and u_le: "u \<le> 128 / 2 ^ 52"
    using binade_bounds [OF assms] by (simp_all add: u_def divide_right_mono)
  have "r - x = (of_int (round_half_even (x / u)) - x / u) * u"
    using u_pos by (simp add: r_def algebra_simps)
  then have "\<bar>r - x\<bar> = \<bar>of_int (round_half_even (x / u)) - x / u\<bar> * u"
    using u_pos by (simp add: abs_mult)
  also have "\<dots> \<le> (1 / 2) * u"
    using round_half_even_error [of "x / u"] u_pos by (intro mult_right_mono) simp_all
  also have "\<dots> \<le> (1 / 2) * (128 / 2 ^ 52)"
    using u_le by simp
  also have "\<dots> = 1 / 2 ^ 46"
    by simp
  finally have err: "\<bar>r - x\<bar> \<le> 1 / 2 ^ 46" .
  have small: "(1::rat) / 2 ^ 46 \<le> 1"
    by simp
  from err small assms have "\<bar>r\<bar> \<le> 129"
    by linarith
  moreover have "(129::rat) < 2 ^ 1024"
    by simp
  ultimately have "in_range r = Some r"
    by (simp add: in_range_def)
  then have "to_double x = Some r"
    using False by (simp add: to_double_def round_at_def r_def u_def)
  with err show ?thesis by simp
qed

lemma approx_mono:
  "approx e b x y \<Longrightarrow> e \<le> e' \<Longrightarrow> b \<le> b' \<Longrightarrow> approx e' b' x y"
  by (auto simp: approx_def intro: order_trans)

lemma approx_add:
  assumes "approx e1 b1 x y1" and "approx e2 b2 z y2" and "b1 + b2 + e1 + e2 \<le> 128"
  shows "approx (e1 + e2 + 1 / 2 ^ 46) (b1 + b2) (nadd x z) (y1 + y2)"
proof -
  from assms(1) obtain r1 where r1: "x = Some r1" "\<bar>r1 - y1\<bar> \<le> e1" "\<bar>y1\<bar> \<le> b1"
    by (auto simp: approx_def)
  from assms(2) obtain r2 where r2: "z = Some r2" "\<bar>r2 - y2\<bar> \<le> e2" "\<bar>y2\<bar> \<le> b2"
    by (auto simp: approx_def)
  have "\<bar>r1 + r2\<bar> \<le> 128"
    using r1 r2 assms(3) by linarith
  then obtain r where r: "to_double (r1 + r2) = Some r" "\<bar>r - (r1 + r2)\<bar> \<le> 1 / 2 ^ 46"
    using to_double_error by blast
  have "\<bar>r - (y1 + y2)\<bar> \<le> e1 + e2 + 1 / 2 ^ 46"
    using r(2) r1(2) r2(2) by linarith
  moreover have "\<bar>y1 + y2\<bar> \<le> b1 + b2"
    using r1(3) r2(3) by linarith
  ultimately show ?thesis
    using r(1) r1(1) r2(1) by (simp add: approx_def nadd_def)
qed

lemma approx_times100:
  assumes "approx e b x y" and "100 * (b + e) \<le> 128"
  shows "approx (100 * e + 1 / 2 ^ 46) (100 * b) (nmul x (Some 100)) (y * 100)"
proof -
  from assms(1) obtain r1 where r1: "x = Some r1" "\<bar>r1 - y\<bar> \<le> e" "\<bar>y\<bar> \<le> b"
    by (auto simp: approx_def)
  have "\<bar>r1\<bar> \<le> b + e"
    using r1(2,3) by linarith
  then have "\<bar>r1 * 100\<bar> \<le> 128"
    using assms(2) by (simp add: abs_mult)
  then obtain r where r: "to_double (r1 * 100) = Some r" "\<bar>r - r1 * 100\<bar> \<le> 1 / 2 ^ 46"
    using to_double_error by blast
  have eq: "r1 * 100 - y * 100 = (r1 - y) * 100"
    by (simp add: algebra_simps)
  have "\<bar>r1 * 100 - y * 100\<bar> = \<bar>(r1 - y) * 100\<bar>"
    by (simp only: eq)
  also have "\<dots> = \<bar>r1 - y\<bar> * 100"
    by (simp only: abs_mult abs_numeral)
  finally have "\<bar>r1 * 100 - y * 100\<bar> = \<bar>r1 - y\<bar> * 100" .
  then have "\<bar>r - y * 100\<bar> \<le> 100 * e + 1 / 2 ^ 46"
    using r(2) r1(2) by linarith
  moreover have "\<bar>y * 100\<bar> \<le> 100 * b"
    using r1(3) by (simp add: abs_mult)
  ultimately show ?thesis
    using r(1) r1(1) by (simp add: approx_def nmul_def)
qed

lemma approx_item:
  assumes "bounded_scores s" and "0 \<le> w" and "w \<le> 1 / 10"
  shows "approx (3 / 2 ^ 46) (11 / 10 * w) (item s c w) (the (s c) / 10 * w)"
proof -
  let ?d = "(1::rat) / 2 ^ 46"
  have d: "0 \<le> ?d" "?d \<le> 1 / 10"
    by simp_all
  from assms(1) obtain v where v: "s c = Some v" "\<bar>v\<bar> \<le> 11"
    by (auto simp: bounded_scores_def)
  have "\<bar>v / 10\<bar> \<le> 128"
    using v(2) by simp
  then obtain a where a: "to_double (v / 10) = Some a" "\<bar>a - v / 10\<bar> \<le> ?d"
    using to_double_error by blast
  have "\<bar>w\<bar> \<le> 128"
    using assms(2,3) by simp
  then obtain q where q: "to_double w = Some q" "\<bar>q - w\<bar> \<le> ?d"
    using to_double_error by blast
  have q_le: "\<bar>q\<bar> \<le> 1 / 5"
    using q(2) assms(2,3) d by linarith
  have v_le: "\<bar>v / 10\<bar> \<le> 11 / 10"
    using v(2) by simp
  have a_le: "\<bar>a\<bar> \<le> 2"
    using a(2) v_le d by linarith
  have "\<bar>a * q\<bar> \<le> 2 * (1 / 5)"
    unfolding abs_mult using a_le q_le by (intro mult_mono) simp_all
  then have "\<bar>a * q\<bar> \<le> 128"
    by simp
  then obtain r where r: "to_double (a * q) = Some r" "\<bar>r - a * q\<bar> \<le> ?d"
    using to_double_error by blast
  have split: "a * q - v / 10 * w = (a - v / 10) * q + v / 10 * (q - w)"
    by (simp add: field_simps)
  have left: "\<bar>(a - v / 10) * q\<bar> \<le> ?d * (1 / 5)"
    unfolding abs_mult using a(2) q_le by (intro mult_mono) simp_all
  have right: "\<bar>v / 10 * (q - w)\<bar> \<le> 11 / 10 * ?d"
    unfolding abs_mult using v_le q(2) by (intro mult_mono) simp_all
  have "\<bar>a * q - v / 10 * w\<bar> \<le> \<bar>(a - v / 10) * q\<bar> + \<bar>v / 10 * (q - w)\<bar>"
    unfolding split by (rule abs_triangle_ineq)
  also have "\<dots> \<le> ?d * (1 / 5) + 11 / 10 * ?d"
    using left right by (rule add_mono)
  also have "\<dots> \<le> 2 * ?d"
    by simp
  finally have prod: "\<bar>a * q - v / 10 * w\<bar> \<le> 2 * ?d" .
  have "\<bar>(r - a * q) + (a * q - v / 10 * w)\<bar> \<le> \<bar>r - a * q\<bar> + \<bar>a * q - v / 10 * w\<bar>"
    by (rule abs_triangle_ineq)
  then have "\<bar>r - v / 10 * w\<bar> \<le> \<bar>r - a * q\<bar> + \<bar>a * q - v / 10 * w\<bar>"
    by simp
  also have "\<dots> \<le> ?d + 2 * ?d"
    using r(2) prod by (rule add_mono)
  also have "\<dots> = 3 / 2 ^ 46"
    by simp
  finally have total: "\<bar>r - v / 10 * w\<bar> \<le> 3 / 2 ^ 46" .
  have "\<bar>v / 10 * w\<bar> \<le> 11 / 10 * w"
    unfolding abs_mult using v_le assms(2) by (intro mult_mono) simp_all
  with total show ?thesis
    using v(1) a(1) q(1) r(1) by (simp add: approx_def item_def nmul_def ndiv10_def)
qed


lemma experience_approx:
  assumes "bounded_scores s"
  shows "approx (1101 / 2 ^ 46) (55 / 2) (experienceWeight s)
           ((the (s experienceScore) / 10 * 0.10 + the (s caseStudiesScore) / 10 * 0.10 +
             the (s domainExperienceScore) / 10 * 0.05) * 100)"
  unfolding experienceWeight_def
  by (rule approx_mono [OF approx_times100 [OF approx_add [OF approx_add
        [OF approx_item approx_item] approx_item]]])
     (use assms in simp_all)

lemma understanding_approx:
  assumes "bounded_scores s"
  shows "approx (1101 / 2 ^ 46) 22 (understandingWeight s)
           ((the (s approachAlignmentScore) / 10 * 0.07 +
             the (s understandingChallengesScore) / 10 * 0.07 +
             the (s solutionTailoringScore) / 10 * 0.06) * 100)"
  unfolding understandingWeight_def
  by (rule approx_mono [OF approx_times100 [OF approx_add [OF approx_add
        [OF approx_item approx_item] approx_item]]])
     (use assms in simp_all)

lemma methodology_approx:
  assumes "bounded_scores s"
  shows "approx (1901 / 2 ^ 46) (143 / 5) (methodologyWeight s)
           ((the (s strategyAlignmentScore) / 10 * 0.07 + the (s methodologyScore) / 10 * 0.06 +
             the (s innovativeStrategiesScore) / 10 * 0.05 +
             the (s stakeholderEngagementScore) / 10 * 0.05 +
             the (s toolsFrameworkScore) / 10 * 0.03) * 100)"
  unfolding methodologyWeight_def
  by (rule approx_mono [OF approx_times100 [OF approx_add [OF approx_add [OF approx_add
        [OF approx_add [OF approx_item approx_item] approx_item] approx_item] approx_item]]])
     (use assms in simp_all)

lemma cost_approx:
  assumes "bounded_scores s"
  shows "approx (1101 / 2 ^ 46) (77 / 5) (costWeight s)
           ((the (s costStructureScore) / 10 * 0.06 + the (s costEffectivenessScore) / 10 * 0.05 +
             the (s roiScore) / 10 * 0.03) * 100)"
  unfolding costWeight_def
  by (rule approx_mono [OF approx_times100 [OF approx_add [OF approx_add
        [OF approx_item approx_item] approx_item]]])
     (use assms in simp_all)

lemma references_approx:
  assumes "bounded_scores s"
  shows "approx (1101 / 2 ^ 46) 11 (referencesWeight s)
           ((the (s referencesScore) / 10 * 0.06 + the (s testimonialsScore) / 10 * 0.02 +
             the (s sustainabilityScore) / 10 * 0.02) * 100)"
  unfolding referencesWeight_def
  by (rule approx_mono [OF approx_times100 [OF approx_add [OF approx_add
        [OF approx_item approx_item] approx_item]]])
     (use assms in simp_all)

lemma deliverables_approx:
  assumes "bounded_scores s"
  shows "approx (301 / 2 ^ 46) (11 / 2) (deliverablesWeight s)
           (the (s deliverablesScore) / 10 * 0.05 * 100)"
  unfolding deliverablesWeight_def
  by (rule approx_mono [OF approx_times100 [OF approx_item]])
     (use assms in simp_all)

lemma reference_score_unfold:
  assumes "bounded_scores s"
  shows "reference_score s =
     (the (s experienceScore) / 10 * 0.10 + the (s caseStudiesScore) / 10 * 0.10 +
      the (s domainExperienceScore) / 10 * 0.05) * 100 +
     (the (s approachAlignmentScore) / 10 * 0.07 +
      the (s understandingChallengesScore) / 10 * 0.07 +
      the (s solutionTailoringScore) / 10 * 0.06) * 100 +
     (the (s strategyAlignmentScore) / 10 * 0.07 + the (s methodologyScore) / 10 * 0.06 +
      the (s innovativeStrategiesScore) / 10 * 0.05 +
      the (s stakeholderEngagementScore) / 10 * 0.05 +
      the (s toolsFrameworkScore) / 10 * 0.03) * 100 +
     (the (s costStructureScore) / 10 * 0.06 + the (s costEffectivenessScore) / 10 * 0.05 +
      the (s roiScore) / 10 * 0.03) * 100 +
     (the (s referencesScore) / 10 * 0.06 + the (s testimonialsScore) / 10 * 0.02 +
      the (s sustainabilityScore) / 10 * 0.02) * 100 +
     the (s deliverablesScore) / 10 * 0.05 * 100"
proof -
  have "contribution s c = the (s c) / 10 * weight c * 100" for c
  proof -
    from assms obtain v where "s c = Some v"
      by (auto simp: bounded_scores_def)
    then show ?thesis
      by (simp add: contribution_def)
  qed
  then show ?thesis
    by (simp add: reference_score_def criteria_def)
qed

lemma calculateWeightedScore_approx:
  assumes "bounded_scores s"
  shows "approx (6611 / 2 ^ 46) 110 (calculateWeightedScore s) (reference_score s)"
  unfolding calculateWeightedScore_def reference_score_unfold [OF assms]
  by (rule approx_mono [OF approx_add [OF approx_add [OF approx_add [OF approx_add
        [OF approx_add [OF experience_approx understanding_approx] methodology_approx]
        cost_approx] references_approx] deliverables_approx]])
     (use assms in simp_all)



subsection \<open>The claims about the aggregator\<close>

lemma criteria_complete: "c \<in> set criteria"
  by (cases c) (simp_all add: criteria_def)

lemma valid_scores:
  assumes "\<not> list_ex (invalid_score s) criteria"
  shows "\<exists>v. s c = Some v \<and> 0 \<le> v \<and> v \<le> 10"
proof -
  have "\<not> invalid_score s c"
    using assms criteria_complete [of c] by (auto simp: list_ex_iff)
  then show ?thesis
    by (cases "s c") (auto simp: invalid_score_def)
qed

lemma valid_bounded:
  assumes "\<not> list_ex (invalid_score s) criteria"
  shows "bounded_scores s"
  unfolding bounded_scores_def
proof
  fix c
  from valid_scores [OF assms, of c] obtain v where "s c = Some v" "0 \<le> v" "v \<le> 10"
    by blast
  then show "\<exists>v. s c = Some v \<and> \<bar>v\<bar> \<le> 11"
    by auto
qed

lemma error_below_epsilon: "(6611::rat) / 2 ^ 46 \<le> 1 / 10 ^ 9"
  by simp

text \<open>
  Claim C1, as amended. The aggregator computes in doubles, so its result is not the exact
  sum bit for bit (the counterexample below). On every score object that has all 18 keys
  with values in [0,10], \<^verbatim>\<open>calculateWeightedScore\<close> returns a finite number that differs
  from the sum over the 18 criteria of (value / 10) * weight * 100 by at most 1e-9.
\<close>

theorem calculateWeightedScore_near_reference:
  assumes "\<not> list_ex (invalid_score s) criteria"
  shows "\<exists>r. calculateWeightedScore s = Some r \<and> \<bar>r - reference_score s\<bar> \<le> 1 / 10 ^ 9"
proof -
  from calculateWeightedScore_approx [OF valid_bounded [OF assms]]
  obtain r where "calculateWeightedScore s = Some r" "\<bar>r - reference_score s\<bar> \<le> 6611 / 2 ^ 46"
    by (auto simp: approx_def)
  with error_below_epsilon show ?thesis
    by (intro exI [of _ r]) linarith
qed

lemma golden_valid_scores: "\<not> list_ex (invalid_score golden) criteria"
  by (simp add: criteria_def invalid_score_def golden_def)

lemma golden_reference: "reference_score golden = 113 / 2"
  by (simp add: reference_score_def contribution_def criteria_def golden_def)

theorem calculateWeightedScore_near_reference_witness:
  "\<not> list_ex (invalid_score golden) criteria \<and>
   (\<exists>r. calculateWeightedScore golden = Some r \<and> \<bar>r - reference_score golden\<bar> \<le> 1 / 10 ^ 9)"
  using calculateWeightedScore_near_reference [OF golden_valid_scores] golden_valid_scores by simp

lemma one_hot_keys: "set criteria \<subseteq> dom (one_hot c v)"
  by (auto simp: one_hot_def)

lemma one_hot_reference: "reference_score (one_hot approachAlignmentScore 10) = 7"
  by (simp add: reference_score_def contribution_def criteria_def one_hot_def)

text \<open>
  With 10 on the one criterion of weight 0.07 and 0 elsewhere, the exact sum is 7 and the
  aggregator returns the next double above 7.
\<close>

theorem calculateWeightedScore_reference_counterexample:
  "set criteria \<subseteq> dom (one_hot approachAlignmentScore 10) \<and>
   calculateWeightedScore (one_hot approachAlignmentScore 10) = Some (7 + 1 / 2 ^ 50) \<and>
   reference_score (one_hot approachAlignmentScore 10) = 7 \<and>
   calculateWeightedScore (one_hot approachAlignmentScore 10) \<noteq>
     Some (reference_score (one_hot approachAlignmentScore 10))"
  using one_hot_keys [of approachAlignmentScore 10]
  by (simp add: one_hot_seven_score one_hot_reference)

lemma bounded_total:
  assumes "bounded_scores s"
  shows "s = (\<lambda>c. Some (the (s c)))"
proof
  fix c
  from assms obtain v where "s c = Some v"
    by (auto simp: bounded_scores_def)
  then show "s c = Some (the (s c))"
    by simp
qed

lemma reference_score_scale:
  "reference_score (\<lambda>c. Some (k * f c)) = k * reference_score (\<lambda>c. Some (f c))"
  by (simp add: reference_score_def contribution_def criteria_def algebra_simps)

lemma reference_score_close:
  assumes "\<And>c. \<bar>f c - g c\<bar> \<le> d"
  shows "\<bar>reference_score (\<lambda>c. Some (f c)) - reference_score (\<lambda>c. Some (g c))\<bar> \<le> 10 * d"
  using assms [of experienceScore] assms [of caseStudiesScore] assms [of domainExperienceScore]
    assms [of approachAlignmentScore] assms [of understandingChallengesScore]
    assms [of solutionTailoringScore] assms [of strategyAlignmentScore]
    assms [of methodologyScore] assms [of innovativeStrategiesScore]
    assms [of stakeholderEngagementScore] assms [of toolsFrameworkScore]
    assms [of costStructureScore] assms [of costEffectivenessScore] assms [of roiScore]
    assms [of referencesScore] assms [of testimonialsScore] assms [of sustainabilityScore]
    assms [of deliverablesScore]
  unfolding reference_score_def contribution_def criteria_def
  by (simp add: abs_le_iff)


lemma scale_close:
  assumes "0 \<le> k" and "k \<le> 1" and "\<not> list_ex (invalid_score s) criteria"
  shows "\<exists>r. scale k s c = Some r \<and> \<bar>r - k * the (s c)\<bar> \<le> 1 / 2 ^ 46 \<and> \<bar>r\<bar> \<le> 11"
proof -
  from valid_scores [OF assms(3), of c] obtain v where v: "s c = Some v" "0 \<le> v" "v \<le> 10"
    by blast
  have "k * v \<le> 1 * 10"
    using assms(1,2) v(2,3) by (intro mult_mono) simp_all
  moreover have "0 \<le> k * v"
    using assms(1) v(2) by simp
  ultimately have kv: "\<bar>k * v\<bar> \<le> 10"
    by simp
  then have "\<bar>k * v\<bar> \<le> 128"
    by simp
  then obtain r where r: "to_double (k * v) = Some r" "\<bar>r - k * v\<bar> \<le> 1 / 2 ^ 46"
    using to_double_error by blast
  have small: "(1::rat) / 2 ^ 46 \<le> 1"
    by simp
  from r(2) kv small have "\<bar>r\<bar> \<le> 11"
    by linarith
  with r v(1) show ?thesis
    by (simp add: scale_def nmul_def)
qed

text \<open>
  Claim C6, as amended. In doubles the aggregator is homogeneous up to rounding, not bit
  for bit (the counterexample below): for a factor \<open>k\<close> in [0,1] and a score object with
  all 18 keys and values in [0,10], the result on the scaled object and \<open>k\<close> times the
  result are finite and differ by at most 1e-9.
\<close>

theorem calculateWeightedScore_nearly_homogeneous:
  assumes "0 \<le> k" and "k \<le> 1" and "\<not> list_ex (invalid_score s) criteria"
  shows "\<exists>a b. calculateWeightedScore (scale k s) = Some a \<and>
               nmul (Some k) (calculateWeightedScore s) = Some b \<and>
               \<bar>a - b\<bar> \<le> 1 / 10 ^ 9"
proof -
  let ?e = "(6611::rat) / 2 ^ 46"
  let ?d = "(1::rat) / 2 ^ 46"
  let ?f = "\<lambda>c. the (s c)"
  let ?g = "\<lambda>c. the (scale k s c)"
  have bs: "bounded_scores s"
    using assms(3) by (rule valid_bounded)
  have bk: "bounded_scores (scale k s)"
    unfolding bounded_scores_def using scale_close [OF assms] by blast
  from calculateWeightedScore_approx [OF bk]
  obtain a where a: "calculateWeightedScore (scale k s) = Some a"
      "\<bar>a - reference_score (scale k s)\<bar> \<le> ?e"
    by (auto simp: approx_def)
  from calculateWeightedScore_approx [OF bs]
  obtain t where t: "calculateWeightedScore s = Some t"
      "\<bar>t - reference_score s\<bar> \<le> ?e" "\<bar>reference_score s\<bar> \<le> 110"
    by (auto simp: approx_def)
  have e_small: "?e \<le> 1"
    by simp
  have t_le: "\<bar>t\<bar> \<le> 111"
    using t(2,3) e_small by linarith
  have "\<bar>k * t\<bar> \<le> 1 * 111"
    unfolding abs_mult using assms(1,2) t_le by (intro mult_mono) simp_all
  then have "\<bar>k * t\<bar> \<le> 128"
    by simp
  then obtain b where b: "to_double (k * t) = Some b" "\<bar>b - k * t\<bar> \<le> ?d"
    using to_double_error by blast
  have close: "\<bar>?g c - k * ?f c\<bar> \<le> ?d" for c
    using scale_close [OF assms, of c] by auto
  have "\<bar>reference_score (\<lambda>c. Some (?g c)) - reference_score (\<lambda>c. Some (k * ?f c))\<bar> \<le> 10 * ?d"
    using close by (rule reference_score_close)
  then have mid: "\<bar>reference_score (scale k s) - k * reference_score s\<bar> \<le> 10 * ?d"
    using bounded_total [OF bk] bounded_total [OF bs] by (simp add: reference_score_scale)
  have "\<bar>k * reference_score s - k * t\<bar> = k * \<bar>reference_score s - t\<bar>"
    using assms(1) by (simp add: abs_mult flip: right_diff_distrib)
  also have "\<dots> \<le> 1 * ?e"
    using assms(1,2) t(2) by (intro mult_mono) (simp_all add: abs_minus_commute)
  finally have scaled: "\<bar>k * reference_score s - k * t\<bar> \<le> ?e"
    by simp
  have "\<bar>a - b\<bar> \<le> ?e + 10 * ?d + ?e + ?d"
    using a(2) mid scaled b(2) by linarith
  also have "\<dots> \<le> 1 / 10 ^ 9"
    by simp
  finally have "\<bar>a - b\<bar> \<le> 1 / 10 ^ 9" .
  with a(1) b(1) t(1) show ?thesis
    by (simp add: nmul_def)
qed

lemma tenth_is_double: "to_double (1 / 10) = Some tenth"
  by (simp add: double_eval tenth_def)

lemma scale_tenth: "scale tenth (all_scores 10) = all_scores 1"
  by (simp add: scale_def nmul_def double_eval tenth_def all_scores_def)

lemma tenth_of_hundred: "nmul (Some tenth) (Some 100) = Some 10"
  by (simp add: nmul_def double_eval tenth_def)

lemma tenth_in_unit: "0 \<le> tenth \<and> tenth \<le> 1"
  by (simp add: tenth_def)

text \<open>
  With the factor 0.1 and every score 10, the scaled object has every score 1 and the
  aggregator returns the next double above 10 on it, while 0.1 times the result 100 is 10.
\<close>

theorem calculateWeightedScore_homogeneous_counterexample:
  "0 \<le> tenth \<and> tenth \<le> 1 \<and>
   calculateWeightedScore (scale tenth (all_scores 10)) = Some (10 + 1 / 2 ^ 49) \<and>
   nmul (Some tenth) (calculateWeightedScore (all_scores 10)) = Some 10 \<and>
   calculateWeightedScore (scale tenth (all_scores 10)) \<noteq>
     nmul (Some tenth) (calculateWeightedScore (all_scores 10))"
  using tenth_in_unit
  by (simp add: scale_tenth all_one_score all_ten_score tenth_of_hundred)

theorem calculateWeightedScore_nearly_homogeneous_witness:
  "(0::rat) \<le> 1 / 2 \<and> (1 / 2 :: rat) \<le> 1 \<and> \<not> list_ex (invalid_score golden) criteria \<and>
   (\<exists>a b. calculateWeightedScore (scale (1 / 2) golden) = Some a \<and>
          nmul (Some (1 / 2)) (calculateWeightedScore golden) = Some b \<and>
          \<bar>a - b\<bar> \<le> 1 / 10 ^ 9)"
proof -
  have lo: "(0::rat) \<le> 1 / 2" and hi: "(1 / 2 :: rat) \<le> 1"
    by simp_all
  from calculateWeightedScore_nearly_homogeneous [OF lo hi golden_valid_scores] lo hi golden_valid_scores
  show ?thesis
    by blast
qed

text \<open>
  Claim C4. The 18 weights of the aggregator sum to exactly 1, and the weights of the
  six categories sum to 25%, 20%, 26%, 14%, 10% and 5%.
\<close>

theorem weights_sum_to_one:
  "sum_list (map weight criteria) = 1 \<and>
   category_weight Experience = 25 / 100 \<and>
   category_weight Objectives = 20 / 100 \<and>
   category_weight Methodology = 26 / 100 \<and>
   category_weight Cost = 14 / 100 \<and>
   category_weight References = 10 / 100 \<and>
   category_weight Deliverables = 5 / 100"
  by (simp add: category_weight_def criteria_def)

text \<open>
  Claim C5. With every value 10 the aggregator returns 100, and with every value 0 it
  returns 0: in double arithmetic both results are exact.
\<close>

theorem perfect_and_zero_scores:
  "calculateWeightedScore (\<lambda>c. Some 10) = Some 100 \<and>
   calculateWeightedScore (\<lambda>c. Some 0) = Some 0"
  using all_ten_score all_zero_score by (simp add: all_scores_def)

section \<open>Properties of the decision resolver\<close>

lemma map_of_supersede: "map_of (supersede u b al) = (map_of al)(u \<mapsto> b)"
  by (induction al) (auto simp: fun_eq_iff)

lemma keys_supersede: "set (map fst (supersede u b al)) = insert u (set (map fst al))"
proof (induction al)
  case Nil
  then show ?case by simp
next
  case (Cons p al)
  obtain u' b' where p: "p = (u', b')" by (cases p)
  show ?case
  proof (cases "u' = u")
    case True
    with p show ?thesis by simp
  next
    case False
    with p Cons.IH show ?thesis by (simp add: insert_commute)
  qed
qed

lemma distinct_supersede:
  "distinct (map fst al) \<Longrightarrow> distinct (map fst (supersede u b al))"
proof (induction al)
  case Nil
  then show ?case by simp
next
  case (Cons p al)
  obtain u' b' where p: "p = (u', b')" by (cases p)
  show ?case
  proof (cases "u' = u")
    case True
    with Cons p show ?thesis by simp
  next
    case False
    have "u' \<notin> set (map fst (supersede u b al))"
      using Cons.prems p False by (simp add: keys_supersede del: set_map)
    with Cons p False show ?thesis by simp
  qed
qed

lemma distinct_tally:
  "distinct (map fst al) \<Longrightarrow> distinct (map fst (tally vs al))"
  by (induction vs arbitrary: al) (simp_all add: distinct_supersede)

lemma most_recent_Cons:
  "most_recent (v # vs) u =
     (case most_recent vs u of
        Some b \<Rightarrow> Some b
      | None \<Rightarrow> if vote_userId v = u then Some (vote v) else None)"
  by (simp add: most_recent_def split: list.splits)

lemma map_of_tally:
  "map_of (tally vs al) u =
     (case most_recent vs u of None \<Rightarrow> map_of al u | Some b \<Rightarrow> Some b)"
proof (induction vs arbitrary: al)
  case Nil
  then show ?case by (simp add: most_recent_def)
next
  case (Cons v vs)
  show ?case
    by (simp add: Cons.IH map_of_supersede most_recent_Cons split: option.splits)
qed

lemma count_choice_card:
  assumes "distinct (map fst al)"
  shows "count_choice b al = card {u. map_of al u = Some b}"
proof -
  let ?sel = "filter (\<lambda>p. snd p = b) al"
  have d: "distinct (map fst ?sel)"
    using assms by (rule distinct_map_filter)
  have "{u. map_of al u = Some b} = set (map fst ?sel)"
  proof (rule set_eqI)
    fix u
    have "map_of al u = Some b \<longleftrightarrow> (u, b) \<in> set al"
      using assms by (simp add: map_of_eq_Some_iff)
    also have "\<dots> \<longleftrightarrow> u \<in> set (map fst ?sel)"
      by force
    finally show "u \<in> {u. map_of al u = Some b} \<longleftrightarrow> u \<in> set (map fst ?sel)"
      by simp
  qed
  then have "card {u. map_of al u = Some b} = length (map fst ?sel)"
    using d by (simp only: distinct_card)
  then show ?thesis
    by (simp add: count_choice_def)
qed

lemma count_tally: "count_choice b (tally vs []) = card (voters_for b vs)"
proof -
  have "distinct (map fst (tally vs []))"
    by (rule distinct_tally) simp
  then have "count_choice b (tally vs []) = card {u. map_of (tally vs []) u = Some b}"
    by (rule count_choice_card)
  also have "{u. map_of (tally vs []) u = Some b} = voters_for b vs"
    by (auto simp: voters_for_def map_of_tally split: option.splits)
  finally show ?thesis .
qed

text \<open>
  Claim C2. For every sequence of votes, \<^verbatim>\<open>resolveDecision\<close> counts the voters whose
  most recent vote is ACCEPT and those whose most recent vote is REJECT, and returns
  ACCEPTED when the first count is larger, REJECTED when the second is larger, and PENDING
  when they are equal, the empty sequence included. Three voters with ACCEPT, ACCEPT,
  REJECT give ACCEPTED; two voters with ACCEPT, REJECT give PENDING; no votes give
  PENDING; one voter with ACCEPT then REJECT counts as one REJECT.
\<close>

theorem resolveDecision_counts_latest:
  "resolveDecision vs =
     (if card (voters_for ACCEPT vs) > card (voters_for REJECT vs) then ACCEPTED
      else if card (voters_for REJECT vs) > card (voters_for ACCEPT vs) then REJECTED
      else PENDING) \<and>
   resolveDecision [a_vote 1 ACCEPT, a_vote 2 ACCEPT, a_vote 3 REJECT] = ACCEPTED \<and>
   resolveDecision [a_vote 1 ACCEPT, a_vote 2 REJECT] = PENDING \<and>
   resolveDecision [] = PENDING \<and>
   tally [a_vote 1 ACCEPT, a_vote 1 REJECT] [] = [(1, REJECT)] \<and>
   resolveDecision [a_vote 1 ACCEPT, a_vote 1 REJECT] = REJECTED"
proof -
  have "resolveDecision vs =
     (if card (voters_for ACCEPT vs) > card (voters_for REJECT vs) then ACCEPTED
      else if card (voters_for REJECT vs) > card (voters_for ACCEPT vs) then REJECTED
      else PENDING)"
    by (simp add: resolveDecision_def count_tally Let_def)
  moreover have "resolveDecision [a_vote 1 ACCEPT, a_vote 2 ACCEPT, a_vote 3 REJECT] = ACCEPTED"
    by (simp add: resolveDecision_def a_vote_def count_choice_def)
  moreover have "resolveDecision [a_vote 1 ACCEPT, a_vote 2 REJECT] = PENDING"
    by (simp add: resolveDecision_def a_vote_def count_choice_def)
  moreover have "resolveDecision [] = PENDING"
    by (simp add: resolveDecision_def count_choice_def)
  moreover have "tally [a_vote 1 ACCEPT, a_vote 1 REJECT] [] = [(1, REJECT)]"
    by (simp add: a_vote_def)
  moreover have "resolveDecision [a_vote 1 ACCEPT, a_vote 1 REJECT] = REJECTED"
    by (simp add: resolveDecision_def a_vote_def count_choice_def)
  ultimately show ?thesis by simp
qed

section \<open>Properties of the vote table\<close>

lemma has_vote_iff: "has_vote v u rows \<longleftrightarrow> (v, u) \<in> set (map vote_key rows)"
  by (auto simp: has_vote_def list_ex_iff image_iff) metis

lemma keys_updateVote: "map vote_key (votes (updateVote v u b db)) = map vote_key (votes db)"
  by (simp add: updateVote_def vote_key_def)

lemma distinct_insertVote:
  "distinct (map vote_key (votes db)) \<Longrightarrow> \<not> has_vote v u (votes db) \<Longrightarrow>
   distinct (map vote_key (votes (insertVote v u b db)))"
  by (simp add: insertVote_def has_vote_iff) (simp add: vote_key_def)

lemma distinct_upsertVote:
  "distinct (map vote_key (votes db)) \<Longrightarrow> distinct (map vote_key (votes (upsertVote v u b db)))"
  by (simp add: upsertVote_def keys_updateVote distinct_insertVote)

lemma distinct_deleteVote:
  "distinct (map vote_key (votes db)) \<Longrightarrow> distinct (map vote_key (votes (deleteVote v u db)))"
  by (simp add: deleteVote_def distinct_map_filter)

lemma votes_castVote: "votes (castVote v u b db) = votes (upsertVote v u b db)"
  by (simp add: castVote_def Let_def)

lemma reachable_distinct: "reachable db \<Longrightarrow> distinct (map vote_key (votes db))"
proof (induction rule: reachable.induct)
  case init
  show ?case by (simp add: empty_vote_db_def)
next
  case (create db v u b db')
  then show ?case
    by (auto simp: createVote_def distinct_insertVote split: if_splits)
next
  case (update db v u b)
  then show ?case by (simp add: keys_updateVote)
next
  case (upsert db v u b)
  from upsert.IH show ?case by (rule distinct_upsertVote)
next
  case (delete db v u)
  from delete.IH show ?case by (rule distinct_deleteVote)
next
  case (cast db v u b)
  then show ?case by (simp add: votes_castVote distinct_upsertVote)
qed

lemma one_row_of_key:
  assumes "distinct (map vote_key rows)" and "k \<in> set (map vote_key rows)"
  shows "length (filter (\<lambda>r. vote_key r = k) rows) = 1"
  using assms
proof (induction rows)
  case Nil
  then show ?case by simp
next
  case (Cons r rows)
  show ?case
  proof (cases "vote_key r = k")
    case True
    then have "k \<notin> set (map vote_key rows)"
      using Cons.prems(1) by auto
    then have "filter (\<lambda>r. vote_key r = k) rows = []"
      by (auto simp: filter_empty_conv)
    with True show ?thesis by simp
  next
    case False
    with Cons show ?thesis by auto
  qed
qed

lemma filter_rewritten:
  "filter (\<lambda>r. vote_key r = k) (map (\<lambda>r. if vote_key r = k then r\<lparr> vote := b \<rparr> else r) rows) =
   map (\<lambda>r. r\<lparr> vote := b \<rparr>) (filter (\<lambda>r. vote_key r = k) rows)"
  by (induction rows) (simp_all add: vote_key_def)

lemma upsert_row:
  assumes "distinct (map vote_key (votes db))"
  shows "map vote (filter (\<lambda>r. vote_key r = (v, u)) (votes (upsertVote v u b db))) = [b]"
proof (cases "has_vote v u (votes db)")
  case True
  have "length (filter (\<lambda>r. vote_key r = (v, u)) (votes db)) = 1"
    using assms True by (intro one_row_of_key) (simp_all add: has_vote_iff)
  then obtain r where r: "filter (\<lambda>r. vote_key r = (v, u)) (votes db) = [r]"
    by (auto simp: length_Suc_conv)
  have "filter (\<lambda>r. vote_key r = (v, u)) (votes (updateVote v u b db)) =
        map (\<lambda>r. r\<lparr> vote := b \<rparr>) (filter (\<lambda>r. vote_key r = (v, u)) (votes db))"
    by (simp add: updateVote_def filter_rewritten)
  with r True show ?thesis
    by (simp add: upsertVote_def)
next
  case False
  then have "filter (\<lambda>r. vote_key r = (v, u)) (votes db) = []"
    by (auto simp: has_vote_def list_ex_iff filter_empty_conv)
  with False show ?thesis
    by (simp add: upsertVote_def insertVote_def vote_key_def)
qed

lemma length_upsert_existing:
  "has_vote v u (votes db) \<Longrightarrow> length (votes (upsertVote v u b db)) = length (votes db)"
  by (simp add: upsertVote_def updateVote_def)

text \<open>
  Claim C7. In every reachable state of the vote table there is at most one row per pair
  of vendor and user; casting a vote for a pair that has a row keeps the number of rows,
  and after a cast the pair has exactly one row, which carries the new vote.
\<close>

theorem one_vote_per_pair:
  assumes "reachable db"
  shows "distinct (map vote_key (votes db)) \<and>
         (has_vote v u (votes db) \<longrightarrow>
            length (votes (castVote v u b db)) = length (votes db)) \<and>
         map vote (filter (\<lambda>r. vote_key r = (v, u)) (votes (castVote v u b db))) = [b] \<and>
         distinct (map vote_key (votes (castVote v u b db)))"
  using assms reachable_distinct [OF assms]
  by (simp add: votes_castVote length_upsert_existing upsert_row distinct_upsertVote)

lemma first_cast_reachable: "reachable (castVote 1 7 ACCEPT empty_vote_db)"
  by (rule reachable.cast) (rule reachable.init)

lemma first_cast_votes:
  "votes (castVote 1 7 ACCEPT empty_vote_db) =
     [\<lparr> vote_id = 1, vote_vendorId = 1, vote_userId = 7, vote = ACCEPT \<rparr>]"
  by (simp add: votes_castVote upsertVote_def insertVote_def has_vote_def empty_vote_db_def)

lemma second_cast_votes:
  "votes (castVote 1 7 REJECT (castVote 1 7 ACCEPT empty_vote_db)) =
     [\<lparr> vote_id = 1, vote_vendorId = 1, vote_userId = 7, vote = REJECT \<rparr>]"
  by (simp add: votes_castVote upsertVote_def insertVote_def updateVote_def has_vote_def
        empty_vote_db_def vote_key_def)

lemma second_cast_decision:
  "finalDecision (castVote 1 7 REJECT (castVote 1 7 ACCEPT empty_vote_db)) 1 = Some REJECTED"
  by (simp add: castVote_def Let_def upsertVote_def insertVote_def updateVote_def has_vote_def
        empty_vote_db_def vote_key_def resolveDecision_def count_choice_def)

theorem one_vote_per_pair_witness:
  "reachable (castVote 1 7 ACCEPT empty_vote_db) \<and>
   has_vote 1 7 (votes (castVote 1 7 ACCEPT empty_vote_db)) \<and>
   length (votes (castVote 1 7 REJECT (castVote 1 7 ACCEPT empty_vote_db))) = 1 \<and>
   map vote (filter (\<lambda>r. vote_key r = (1, 7))
     (votes (castVote 1 7 REJECT (castVote 1 7 ACCEPT empty_vote_db)))) = [REJECT]"
  using one_vote_per_pair [OF first_cast_reachable, of 1 7 REJECT] first_cast_reachable
  by (simp add: first_cast_votes has_vote_def vote_key_def)

section \<open>Properties of the submission path and of the handler\<close>

lemma validate_ignores_overall:
  "validateSubmission (r\<lparr> sub_overallScore := x \<rparr>) = validateSubmission r"
  by (simp add: validateSubmission_def)

lemma submit_ignores_overall:
  "submitEvaluation (r\<lparr> sub_overallScore := x \<rparr>) db = submitEvaluation r db"
  by (simp add: submitEvaluation_def validate_ignores_overall split: option.splits)

lemma submit_stores_recomputed:
  "submitEvaluation r db = Inr (e, db') \<Longrightarrow>
   calculateWeightedScore (sub_scores r) = Some (eval_overallScore e) \<and> db' = db @ [e]"
  by (auto simp: submitEvaluation_def Let_def split: option.splits)

text \<open>
  Claim C3. The stored overall score is never taken from the request: two submissions
  that differ only in the overall score the client sent have the same outcome, and the
  overall score of a stored evaluation is the aggregator's result on the criterion
  scores of the request.
\<close>

theorem overallScore_recomputed:
  "submitEvaluation (r\<lparr> sub_overallScore := x \<rparr>) db =
   submitEvaluation (r\<lparr> sub_overallScore := y \<rparr>) db \<and>
   (\<forall>e db'. submitEvaluation (r\<lparr> sub_overallScore := x \<rparr>) db = Inr (e, db') \<longrightarrow>
      calculateWeightedScore (sub_scores r) = Some (eval_overallScore e) \<and> db' = db @ [e])"
  using submit_stores_recomputed [of "r\<lparr> sub_overallScore := x \<rparr>" db]
  by (simp add: submit_ignores_overall)

lemma golden_valid: "validateSubmission (submitted_body 3 golden) = None"
  by (simp add: validateSubmission_def submitted_body_def Let_def criteria_def invalid_score_def golden_def)

lemma golden_submit:
  "\<exists>e. submitEvaluation ((submitted_body 3 golden)\<lparr> sub_overallScore := Some 999 \<rparr>) [] = Inr (e, [e]) \<and> eval_overallScore e = 113 / 2"
  by (simp add: submit_ignores_overall)
     (simp add: submitEvaluation_def golden_valid, simp add: submitted_body_def golden_score Let_def)

theorem overallScore_recomputed_witness:
  "\<exists>e. submitEvaluation ((submitted_body 3 golden)\<lparr> sub_overallScore := Some 999 \<rparr>) [] = Inr (e, [e]) \<and>
       submitEvaluation ((submitted_body 3 golden)\<lparr> sub_overallScore := None \<rparr>) [] = Inr (e, [e]) \<and>
       eval_overallScore e = 113 / 2 \<and>
       calculateWeightedScore (sub_scores (submitted_body 3 golden)) = Some (eval_overallScore e)"
  using overallScore_recomputed [where r = "submitted_body 3 golden" and x = "Some 999" and db = "[]" and y = None]
        golden_submit
  by auto

lemma typed_fifteen:
  "onChange emptyEvaluation experienceScore (Some 15) = one_hot experienceScore 15"
  by (rule ext) (simp add: onChange_def emptyEvaluation_def one_hot_def)

lemma fifteen_refused: "validateSubmission (submitted_body 7 (one_hot experienceScore 15)) \<noteq> None"
  by (simp add: validateSubmission_def submitted_body_def Let_def invalid_score_def
        criteria_def one_hot_def)

text \<open>
  Claim C8 says that a value outside [0,10] never reaches the aggregator. The form does
  not behave so: typing 15 into the first score input stores 15, and submitting calls the
  aggregator on that state, posts its result (the double 15.000000000000002) as the
  overall score and shows it, with no check in between; the submission is one that the
  validation of the endpoint, as the specification describes it, refuses.
\<close>

theorem out_of_range_reaches_aggregator:
  "onChange emptyEvaluation experienceScore (Some 15) experienceScore = Some 15 \<and>
   sub_overallScore (submitted_body 7 (onChange emptyEvaluation experienceScore (Some 15))) =
     Some (15 + 1 / 2 ^ 49) \<and>
   handleSubmitEvaluation (\<lambda>_. Response True None) 7
       (onChange emptyEvaluation experienceScore (Some 15)) =
     (Submitted (Some (15 + 1 / 2 ^ 49)), emptyEvaluation) \<and>
   validateSubmission (submitted_body 7 (onChange emptyEvaluation experienceScore (Some 15))) \<noteq> None"
proof -
  have "one_hot experienceScore 15 experienceScore = Some 15"
    by (simp add: one_hot_def)
  moreover have "sub_overallScore (submitted_body 7 (one_hot experienceScore 15)) =
      Some (15 + 1 / 2 ^ 49)"
    by (simp add: submitted_body_def Let_def one_hot_fifteen_score)
  moreover have "handleSubmitEvaluation (\<lambda>_. Response True None) 7 (one_hot experienceScore 15) =
      (Submitted (Some (15 + 1 / 2 ^ 49)), emptyEvaluation)"
    by (simp add: handleSubmitEvaluation_def Let_def one_hot_fifteen_score)
  ultimately show ?thesis
    using fifteen_refused by (simp only: typed_fifteen) simp
qed

lemma onChange_keeps_keys: "dom (onChange s c parsed) = insert c (dom s)"
  by (simp add: onChange_def)

text \<open>
  Claim C9, as amended. The deployment-error handler answers 405 to every request whose
  method is neither GET nor POST, and 400 to a POST request whose body can be destructured
  (any JSON value but \<^verbatim>\<open>null\<close>) and whose \<^verbatim>\<open>errorMessage\<close> or \<^verbatim>\<open>environment\<close> is missing
  or otherwise falsy; in both cases, and for every POST request without those two fields
  whatever its body, the database state is returned as it was, so no record is created.
\<close>

theorem handler_rejects:
  "(req_method req \<noteq> ''POST'' \<and> req_method req \<noteq> ''GET'' \<longrightarrow>
      status (fst (handler prisma req db)) = 405 \<and> snd (handler prisma req db) = db) \<and>
   (req_method req = ''POST'' \<and> destructurable (req_body req) \<and>
      (\<not> truthy (body_field (req_body req) ''errorMessage'') \<or>
       \<not> truthy (body_field (req_body req) ''environment'')) \<longrightarrow>
      status (fst (handler prisma req db)) = 400 \<and> snd (handler prisma req db) = db) \<and>
   (req_method req = ''POST'' \<and>
      (\<not> truthy (body_field (req_body req) ''errorMessage'') \<or>
       \<not> truthy (body_field (req_body req) ''environment'')) \<longrightarrow>
      snd (handler prisma req db) = db)"
  by (simp add: handler_def Let_def)

theorem handler_rejects_witness:
  "status (fst (handler list_client (a_request ''DELETE'' None) [])) = 405 \<and>
   snd (handler list_client (a_request ''DELETE'' None) []) = [] \<and>
   destructurable (Some (JObj [(''environment'', JStr ''production'')])) \<and>
   status (fst (handler list_client
      (a_request ''POST'' (Some (JObj [(''environment'', JStr ''production'')]))) [])) = 400 \<and>
   snd (handler list_client
      (a_request ''POST'' (Some (JObj [(''environment'', JStr ''production'')]))) []) = [] \<and>
   snd (handler list_client (a_request ''POST'' (Some JNull)) []) = []"
  using handler_rejects [of "a_request ''DELETE'' None" list_client "[]"]
        handler_rejects [of "a_request ''POST'' (Some (JObj [(''environment'', JStr ''production'')]))"
          list_client "[]"]
        handler_rejects [of "a_request ''POST'' (Some JNull)" list_client "[]"]
  by (simp add: a_request_def destructurable_def body_field_def)

text \<open>
  A POST request whose body is the JSON value \<^verbatim>\<open>null\<close> has no \<^verbatim>\<open>errorMessage\<close>, and is
  answered with 500: the destructuring throws inside the \<^verbatim>\<open>try\<close> block.
\<close>

theorem handler_null_body_counterexample:
  "req_method (a_request ''POST'' (Some JNull)) = ''POST'' \<and>
   \<not> truthy (body_field (req_body (a_request ''POST'' (Some JNull))) ''errorMessage'') \<and>
   status (fst (handler list_client (a_request ''POST'' (Some JNull)) [])) = 500 \<and>
   status (fst (handler list_client (a_request ''POST'' (Some JNull)) [])) \<noteq> 400"
  by (simp add: handler_def a_request_def destructurable_def body_field_def)

lemma handler_creates:
  "status (fst (handler list_client (a_request ''POST''
      (Some (JObj [(''errorMessage'', JStr ''boom''), (''environment'', JStr ''production'')]))) [])) = 201 \<and>
   length (snd (handler list_client (a_request ''POST''
      (Some (JObj [(''errorMessage'', JStr ''boom''), (''environment'', JStr ''production'')]))) [])) = 1"
  by (simp add: handler_def a_request_def list_client_def destructurable_def body_field_def Let_def)


section \<open>Properties of the database connection\<close>

lemma retry_numbers_append: "retry_numbers (xs @ ys) = retry_numbers xs @ retry_numbers ys"
  by (induction xs rule: retry_numbers.induct) simp_all

lemma try_block_failed:
  assumes "\<not> fst (try_block a s)"
  shows "connectionRetries (snd (try_block a s)) = connectionRetries s"
    and "retry_numbers (console (snd (try_block a s))) = retry_numbers (console s)"
  using assms
  by (simp_all add: try_block_def Let_def retry_numbers_append split: if_splits)

lemma try_block_succeeded:
  assumes "fst (try_block a s)"
  shows "isConnected (snd (try_block a s))"
    and "retry_numbers (console (snd (try_block a s))) = retry_numbers (console s)"
    and "\<not> create_throws a \<and> \<not> connect_throws a"
    and "connectionRetries (snd (try_block a s)) = 0"
  using assms
  by (auto simp: try_block_def Let_def retry_numbers_append split: if_splits)

lemma catch_block_simps:
  "connectionRetries (catch_block s) = connectionRetries s"
  "\<not> isConnected (catch_block s)"
  "retry_numbers (console (catch_block s)) = retry_numbers (console s)"
  by (simp_all add: catch_block_def retry_numbers_append)

lemma retry_step_simps:
  "connectionRetries (retry_step s) = connectionRetries s + 1"
  "isConnected (retry_step s) = isConnected s"
  "retry_numbers (console (retry_step s)) = retry_numbers (console s) @ [connectionRetries s + 1]"
  by (simp_all add: retry_step_def Let_def retry_numbers_append)

lemma connectDB_post: "\<exists>j. connect_post m attempts n s (connectDB m attempts n s) j"
proof (induction m attempts n s rule: connectDB.induct)
  case (1 m attempts n s)
  let ?t = "try_block (attempts n) s"
  let ?c = "catch_block (snd ?t)"
  show ?case
  proof (cases "isConnected s")
    case True
    then have "connectDB m attempts n s = (True, s)"
      by (simp add: connectDB.simps)
    with True have "connect_post m attempts n s (connectDB m attempts n s) 0"
      by (simp add: connect_post_def)
    then show ?thesis ..
  next
    case off: False
    show ?thesis
    proof (cases "fst ?t")
      case True
      with off have "connectDB m attempts n s = (True, snd ?t)"
        by (simp add: connectDB.simps)
      with try_block_succeeded [OF True]
      have "connect_post m attempts n s (connectDB m attempts n s) 0"
        by (simp add: connect_post_def)
      then show ?thesis ..
    next
      case failed: False
      note kept = try_block_failed [OF failed] catch_block_simps
      show ?thesis
      proof (cases "below_max (connectionRetries ?c) m")
        case False
        with off failed have "connectDB m attempts n s = (False, ?c)"
          by (simp add: connectDB.simps)
        with False kept have "connect_post m attempts n s (connectDB m attempts n s) 0"
          by (simp add: connect_post_def)
        then show ?thesis ..
      next
        case True
        with off failed have eq: "connectDB m attempts n s =
            connectDB m attempts (Suc n) (retry_step ?c)"
          by (simp add: connectDB.simps)
        from "1.IH" [OF off failed True] obtain j where
          j: "connect_post m attempts (Suc n) (retry_step ?c)
                (connectDB m attempts (Suc n) (retry_step ?c)) j" ..
        from True kept obtain mx where mx: "m = Some mx" "connectionRetries s < mx"
          by (auto simp: below_max_def split: option.splits)
        have left: "int (retries_left m (retry_step ?c)) + 1 = int (retries_left m s)"
          using mx kept by (simp add: retries_left_def retry_step_simps)
        have nums: "[connectionRetries s + 1 .. connectionRetries s + (j + 1)] =
                    (connectionRetries s + 1) # [connectionRetries s + 1 + 1 .. connectionRetries s + 1 + j]"
          if "0 \<le> j"
          using that by (subst upto_rec1) (simp_all add: algebra_simps)
        let ?r = "connectDB m attempts (Suc n) (retry_step ?c)"
        have j0: "0 \<le> j" and jle: "j \<le> int (retries_left m (retry_step ?c))"
          and jn: "retry_numbers (console (snd ?r)) =
             retry_numbers (console (retry_step ?c)) @
             [connectionRetries (retry_step ?c) + 1 .. connectionRetries (retry_step ?c) + j]"
          using j by (simp_all add: connect_post_def)
        have c1: "connectionRetries (retry_step ?c) = connectionRetries s + 1"
          using kept by (simp add: retry_step_simps)
        have g1: "0 \<le> j + 1" "j + 1 \<le> int (retries_left m s)"
          using j0 jle left by simp_all
        have g2: "retry_numbers (console (snd ?r)) =
            retry_numbers (console s) @ [connectionRetries s + 1 .. connectionRetries s + (j + 1)]"
          using jn kept nums [OF j0] by (simp add: retry_step_simps)
        have g3: "isConnected (snd ?r) \<and>
           (isConnected s \<or>
            (\<exists>k \<le> nat (j + 1). \<not> create_throws (attempts (n + k)) \<and> \<not> connect_throws (attempts (n + k))))"
          if r: "fst ?r"
        proof -
          from j r have conn: "isConnected (snd ?r)"
            and "isConnected (retry_step ?c) \<or>
              (\<exists>k \<le> nat j. \<not> create_throws (attempts (Suc n + k)) \<and> \<not> connect_throws (attempts (Suc n + k)))"
            by (simp_all add: connect_post_def)
          then obtain k where k: "k \<le> nat j" "\<not> create_throws (attempts (Suc n + k))"
              "\<not> connect_throws (attempts (Suc n + k))"
            using kept by (auto simp: retry_step_simps)
          have "Suc k \<le> nat (j + 1)"
            using k(1) j0 by simp
          moreover have "\<not> create_throws (attempts (n + Suc k)) \<and> \<not> connect_throws (attempts (n + Suc k))"
            using k by simp
          ultimately show ?thesis
            using conn by blast
        qed
        have g4: "\<not> isConnected (snd ?r) \<and>
           connectionRetries (snd ?r) = connectionRetries s + (j + 1) \<and>
           \<not> below_max (connectionRetries (snd ?r)) m"
          if r: "\<not> fst ?r"
        proof -
          from j r have a: "\<not> isConnected (snd ?r)"
            and b: "connectionRetries (snd ?r) = connectionRetries (retry_step ?c) + j"
            and c: "\<not> below_max (connectionRetries (snd ?r)) m"
            by (auto simp: connect_post_def)
          from b c1 have "connectionRetries (snd ?r) = connectionRetries s + (j + 1)"
            by simp
          with a c show ?thesis
            by simp
        qed
        have "connect_post m attempts n s (connectDB m attempts n s) (j + 1)"
        proof (cases "fst ?r")
          case True
          with g1 g2 g3 [OF True] show ?thesis
            unfolding eq connect_post_def by simp
        next
          case False
          with g1 g2 g4 [OF False] show ?thesis
            unfolding eq connect_post_def by auto
        qed
        then show ?thesis ..
      qed
    qed
  qed
qed


lemma connectDB_counter_nonneg:
  "0 \<le> connectionRetries s \<Longrightarrow> 0 \<le> connectionRetries (snd (connectDB m attempts n s))"
proof (induction m attempts n s rule: connectDB.induct)
  case (1 m attempts n s)
  let ?t = "try_block (attempts n) s"
  let ?c = "catch_block (snd ?t)"
  show ?case
  proof (cases "isConnected s")
    case True
    with "1.prems" show ?thesis
      by (simp add: connectDB.simps)
  next
    case off: False
    show ?thesis
    proof (cases "fst ?t")
      case True
      with off try_block_succeeded(4) [OF True] show ?thesis
        by (simp add: connectDB.simps)
    next
      case failed: False
      have kept: "connectionRetries ?c = connectionRetries s"
        using try_block_failed(1) [OF failed] by (simp add: catch_block_simps)
      show ?thesis
      proof (cases "below_max (connectionRetries ?c) m")
        case False
        with off failed kept "1.prems" show ?thesis
          by (simp add: connectDB.simps)
      next
        case True
        have "0 \<le> connectionRetries (retry_step ?c)"
          using kept "1.prems" by (simp add: retry_step_simps)
        from "1.IH" [OF off failed True this] off failed True show ?thesis
          by (simp add: connectDB.simps)
      qed
    qed
  qed
qed

lemma run_all_failing:
  "connectDB (Some 2) (\<lambda>_. always_failing) 0 initial_conn =
     (False, \<lparr> prisma_present = False, isConnected = False, connectionRetries = 2,
        console = [CreatingClient, TestingConnection, ConnectionError, Retrying 1,
                   CreatingClient, TestingConnection, ConnectionError, Retrying 2,
                   CreatingClient, TestingConnection, ConnectionError] \<rparr>)"
  by (simp add: connectDB.simps try_block_def catch_block_def retry_step_def below_max_def
        always_failing_def initial_conn_def Let_def)

lemma run_second_succeeds:
  "connectDB (Some 5) (\<lambda>k. if k < 1 then always_failing else succeeding) 0 initial_conn =
     (True, \<lparr> prisma_present = True, isConnected = True, connectionRetries = 0,
        console = [CreatingClient, TestingConnection, ConnectionError, Retrying 1,
                   CreatingClient, TestingConnection, ConnectionSuccessful] \<rparr>)"
  by (simp add: connectDB.simps try_block_def catch_block_def retry_step_def below_max_def
        always_failing_def succeeding_def initial_conn_def Let_def)

text \<open>
  Claim C10. \<^verbatim>\<open>connectDB\<close> terminates (it is a total function: its recursion decreases
  the distance of \<^verbatim>\<open>connectionRetries\<close> to \<^verbatim>\<open>MAX_RETRIES\<close>). A call makes \<open>j\<close>
  recursive calls with \<open>j\<close> at most \<^verbatim>\<open>MAX_RETRIES\<close>; the retry numbers it announces
  go up by one from the counter's value at the start; when every attempt fails it
  returns false with the counter \<open>j\<close> higher and no longer below the bound; and it returns
  true only with the connection flag set, which was set before or follows an attempt in
  which creating the client and connecting did not throw. The counter starts at 0 and
  stays non-negative, so the hypothesis holds at every call.
\<close>

theorem connectDB_terminates_bounded:
  assumes "0 \<le> connectionRetries s"
    and "connectDB MAX_RETRIES attempts n s = (r, s')"
  shows "\<exists>j. 0 \<le> j \<and> j \<le> (case MAX_RETRIES of None \<Rightarrow> 0 | Some mx \<Rightarrow> max 0 mx) \<and>
           retry_numbers (console s') =
             retry_numbers (console s) @ [connectionRetries s + 1 .. connectionRetries s + j] \<and>
           (r \<longrightarrow> isConnected s' \<and>
              (isConnected s \<or>
               (\<exists>k \<le> nat j. \<not> create_throws (attempts (n + k)) \<and>
                              \<not> connect_throws (attempts (n + k))))) \<and>
           (\<not> r \<longrightarrow> \<not> isConnected s' \<and>
              connectionRetries s' = connectionRetries s + j \<and>
              \<not> below_max (connectionRetries s') MAX_RETRIES) \<and>
           (\<not> isConnected s \<and> (\<forall>k. connect_throws (attempts k)) \<longrightarrow> \<not> r) \<and>
           0 \<le> connectionRetries s'"
proof -
  obtain j where j: "connect_post MAX_RETRIES attempts n s (connectDB MAX_RETRIES attempts n s) j"
    using connectDB_post by blast
  then have "j \<le> int (retries_left MAX_RETRIES s)"
    by (simp add: connect_post_def)
  also have "\<dots> \<le> (case MAX_RETRIES of None \<Rightarrow> 0 | Some mx \<Rightarrow> max 0 mx)"
    using assms(1) by (simp add: retries_left_def split: option.splits)
  finally have bound: "j \<le> (case MAX_RETRIES of None \<Rightarrow> 0 | Some mx \<Rightarrow> max 0 mx)" .
  from j assms(2) have post: "connect_post MAX_RETRIES attempts n s (r, s') j"
    by simp
  from connectDB_counter_nonneg [OF assms(1), of MAX_RETRIES attempts n] assms(2)
  have nonneg: "0 \<le> connectionRetries s'"
    by simp
  show ?thesis
  proof (cases r)
    case True
    with post bound nonneg show ?thesis
      by (intro exI [of _ j]) (auto simp: connect_post_def)
  next
    case False
    with post bound nonneg show ?thesis
      by (intro exI [of _ j]) (auto simp: connect_post_def)
  qed
qed

theorem connectDB_terminates_bounded_witness:
  "0 \<le> connectionRetries initial_conn \<and>
   fst (connectDB (Some 2) (\<lambda>_. always_failing) 0 initial_conn) = False \<and>
   (\<exists>j. 0 \<le> j \<and> j \<le> 2 \<and>
      retry_numbers (console (snd (connectDB (Some 2) (\<lambda>_. always_failing) 0 initial_conn))) =
        [1 .. j] \<and>
      connectionRetries (snd (connectDB (Some 2) (\<lambda>_. always_failing) 0 initial_conn)) = j)"
proof -
  let ?run = "connectDB (Some 2) (\<lambda>_. always_failing) 0 initial_conn"
  have start: "0 \<le> connectionRetries initial_conn"
    and zero: "connectionRetries initial_conn = 0" "retry_numbers (console initial_conn) = []"
    by (simp_all add: initial_conn_def)
  have res: "?run = (fst ?run, snd ?run)"
    by simp
  have failed: "\<not> fst ?run"
    by (simp add: run_all_failing)
  from connectDB_terminates_bounded [OF start res] failed
  obtain j where "0 \<le> j" "j \<le> 2"
    and "retry_numbers (console (snd ?run)) = [1 .. j]"
    and "connectionRetries (snd ?run) = j"
    unfolding zero by auto
  with start failed show ?thesis
    by blast
qed

end
